theory Spec2Isabelle
  imports Main "HOL-Library.Sublist"
begin

section \<open>Data model of \<^verbatim>\<open>src/index.tsx\<close>\<close>

text \<open>
  JavaScript strings are modelled as \<^typ>\<open>string\<close>; a character stands for a code unit
  below 256. The numeric tool parameters are set by integer sliders and are modelled as
  \<^typ>\<open>int\<close>. The string-literal union types of \<^verbatim>\<open>ToolStates\<close> are datatypes, each with the
  function giving the literal the code embeds in a template string.
  Record fields carry a prefix naming their tool group, because the groups share field
  names such as \<^verbatim>\<open>enabled\<close>: \<open>sr_\<close> superResolution, \<open>ct_\<close> colorTone, \<open>fr_\<close> facialRetouch,
  \<open>pd_\<close> preserveDetails, \<open>hs_\<close> hairStyling, \<open>bg_\<close> background, \<open>cr_\<close> crop,
  \<open>ds_\<close> distractions, \<open>no_\<close> noiseAndOptics.
\<close>

datatype Upscale = X2 | X4 | X8
datatype WhiteBalance = WbAuto | WbCustom
datatype SkinTone = Neutral | SlightlyWarm
datatype Intensity = Low | Medium
datatype Strength = StrengthMedium | StrengthHigh
datatype HairMode = HairKeep | HairColor | HairCustom
datatype BackgroundMode = BgKeep | BgSolid | BgBlur | BgCustom
datatype AspectRatio = Original | Ratio_1_1 | Ratio_4_5 | Ratio_16_9

fun upscaleStr :: "Upscale \<Rightarrow> string" where
  "upscaleStr X2 = ''2x''"
| "upscaleStr X4 = ''4x''"
| "upscaleStr X8 = ''8x''"

fun whiteBalanceStr :: "WhiteBalance \<Rightarrow> string" where
  "whiteBalanceStr WbAuto = ''auto''"
| "whiteBalanceStr WbCustom = ''custom''"

fun skinToneStr :: "SkinTone \<Rightarrow> string" where
  "skinToneStr Neutral = ''neutral''"
| "skinToneStr SlightlyWarm = ''slightly warm''"

fun intensityStr :: "Intensity \<Rightarrow> string" where
  "intensityStr Low = ''low''"
| "intensityStr Medium = ''medium''"

fun strengthStr :: "Strength \<Rightarrow> string" where
  "strengthStr StrengthMedium = ''medium''"
| "strengthStr StrengthHigh = ''high''"

fun hairModeStr :: "HairMode \<Rightarrow> string" where
  "hairModeStr HairKeep = ''keep''"
| "hairModeStr HairColor = ''color''"
| "hairModeStr HairCustom = ''custom''"

fun backgroundModeStr :: "BackgroundMode \<Rightarrow> string" where
  "backgroundModeStr BgKeep = ''keep''"
| "backgroundModeStr BgSolid = ''solid''"
| "backgroundModeStr BgBlur = ''blur''"
| "backgroundModeStr BgCustom = ''custom''"

fun aspectRatioStr :: "AspectRatio \<Rightarrow> string" where
  "aspectRatioStr Original = ''original''"
| "aspectRatioStr Ratio_1_1 = ''1:1''"
| "aspectRatioStr Ratio_4_5 = ''4:5''"
| "aspectRatioStr Ratio_16_9 = ''16:9''"

record SuperResolution =
  sr_enabled :: bool
  sr_upscale :: Upscale

record ColorTone =
  ct_enabled :: bool
  ct_whiteBalance :: WhiteBalance
  ct_temp :: int
  ct_tint :: int
  ct_exposure :: int
  ct_contrast :: int
  ct_highlights :: int
  ct_shadows :: int
  ct_vibrance :: int
  ct_saturation :: int
  ct_skinTone :: SkinTone

record FacialRetouch =
  fr_enabled :: bool
  fr_intensity :: Intensity
  fr_eyeEnhance :: bool
  fr_teethWhiten :: bool

record PreserveDetails =
  pd_enabled :: bool
  pd_strength :: Strength

record HairStyling =
  hs_enabled :: bool
  hs_mode :: HairMode
  hs_color :: string
  hs_customInstruction :: string

record Background =
  bg_enabled :: bool
  bg_mode :: BackgroundMode
  bg_solidColor :: string
  bg_customInstruction :: string

record Crop =
  cr_enabled :: bool
  cr_aspectRatio :: AspectRatio

record Distractions =
  ds_enabled :: bool
  ds_list :: string

record NoiseAndOptics =
  no_enabled :: bool
  no_lumaNoise :: int
  no_chromaNoise :: int
  no_caFix :: int
  no_vignette :: int
  no_distortion :: int

record ToolStates =
  superResolution :: SuperResolution
  colorTone :: ColorTone
  facialRetouch :: FacialRetouch
  preserveDetails :: PreserveDetails
  hairStyling :: HairStyling
  background :: Background
  crop :: Crop
  distractions :: Distractions
  noiseAndOptics :: NoiseAndOptics

definition initialToolStates :: ToolStates where
  "initialToolStates = \<lparr>
     superResolution = \<lparr> sr_enabled = True, sr_upscale = X2 \<rparr>,
     colorTone = \<lparr> ct_enabled = True, ct_whiteBalance = WbAuto,
       ct_temp = 0, ct_tint = 0, ct_exposure = 0, ct_contrast = 0, ct_highlights = 0,
       ct_shadows = 0, ct_vibrance = 0, ct_saturation = 0, ct_skinTone = Neutral \<rparr>,
     facialRetouch = \<lparr> fr_enabled = True, fr_intensity = Low,
       fr_eyeEnhance = True, fr_teethWhiten = True \<rparr>,
     preserveDetails = \<lparr> pd_enabled = False, pd_strength = StrengthMedium \<rparr>,
     hairStyling = \<lparr> hs_enabled = True, hs_mode = HairColor,
       hs_color = ''#5C3D2E'', hs_customInstruction = '''' \<rparr>,
     background = \<lparr> bg_enabled = False, bg_mode = BgKeep,
       bg_solidColor = ''#ffffff'', bg_customInstruction = '''' \<rparr>,
     crop = \<lparr> cr_enabled = False, cr_aspectRatio = Original \<rparr>,
     distractions = \<lparr> ds_enabled = False, ds_list = '''' \<rparr>,
     noiseAndOptics = \<lparr> no_enabled = False, no_lumaNoise = 0, no_chromaNoise = 0,
       no_caFix = 0, no_vignette = 0, no_distortion = 0 \<rparr> \<rparr>"

section \<open>String primitives of the JavaScript runtime\<close>

text \<open>
  The rendering of a whole number by a template string (\<^verbatim>\<open>Number::toString\<close>). Below
  \<open>10 ^ 21\<close> it is the decimal digits. From \<open>10 ^ 21\<close> on it is the significant digits (the
  digits without the trailing zeros), with a point after the first one when there are
  several, then \<^verbatim>\<open>e+\<close> and the exponent. This is what JavaScript prints for the whole
  numbers of at most 15 significant digits, the values of the sliders (\<open>-10\<close> to \<open>10\<close>) among
  them. A number with more digits or with a fraction, which an imported preset could
  carry, is outside this model; it changes the text of a clause only.
\<close>

fun showNat :: "nat \<Rightarrow> string" where
  "showNat n =
     (if n < 10 then [char_of (48 + n)]
      else showNat (n div 10) @ [char_of (48 + n mod 10)])"

declare showNat.simps [simp del]

definition significant :: "string \<Rightarrow> string" where
  "significant ds = rev (dropWhile (\<lambda>c. c = CHR ''0'') (rev ds))"

definition showExponent :: "nat \<Rightarrow> string" where
  "showExponent n =
     (let ds = showNat n
      in (case significant ds of
            [] \<Rightarrow> []
          | d # rest \<Rightarrow> d # (if rest = [] then [] else CHR ''.'' # rest))
         @ ''e+'' @ showNat (length ds - 1))"

definition showMagnitude :: "nat \<Rightarrow> string" where
  "showMagnitude n = (if n < 10 ^ 21 then showNat n else showExponent n)"

definition showInt :: "int \<Rightarrow> string" where
  "showInt i = (if i < 0 then CHR ''-'' # showMagnitude (nat (- i)) else showMagnitude (nat i))"

text \<open>
  \<^verbatim>\<open>String.prototype.trim\<close>: the white space and line terminators of ECMAScript that lie
  below 256 are TAB, LF, VT, FF, CR, SPACE and NBSP.
\<close>

definition isWhiteSpace :: "char \<Rightarrow> bool" where
  "isWhiteSpace c = ((of_char c :: nat) \<in> {9, 10, 11, 12, 13, 32, 160})"

definition trim :: "string \<Rightarrow> string" where
  "trim s = rev (dropWhile isWhiteSpace (rev (dropWhile isWhiteSpace s)))"

text \<open>\<^verbatim>\<open>String.prototype.toUpperCase\<close> on the ASCII letters.\<close>

definition toUpperChar :: "char \<Rightarrow> char" where
  "toUpperChar c =
     (if 97 \<le> (of_char c :: nat) \<and> (of_char c :: nat) \<le> 122
      then char_of ((of_char c :: nat) - 32) else c)"

definition toUpperCase :: "string \<Rightarrow> string" where
  "toUpperCase s = map toUpperChar s"

text \<open>\<^verbatim>\<open>Array.prototype.join\<close>.\<close>

fun join :: "string \<Rightarrow> string list \<Rightarrow> string" where
  "join sep [] = []"
| "join sep [x] = x"
| "join sep (x # y # ys) = x @ sep @ join sep (y # ys)"

section \<open>The prompt compiler \<^verbatim>\<open>buildPrompt\<close>\<close>

text \<open>
  Each definition below is one \<^verbatim>\<open>ops.push\<close> argument of \<^verbatim>\<open>buildPrompt\<close>. The text every
  clause starts with is a constant of its own (\<open>label_\<dots>\<close>), so that a clause can be
  recognised in the compiled list by how it begins.
\<close>

definition label_superResolution :: string where
  "label_superResolution = ''SUPER RESOLUTION: ''"

definition label_colorTone :: string where
  "label_colorTone = ''COLOR & EXPOSURE: ''"

definition label_facialRetouch :: string where
  "label_facialRetouch = ''FACIAL RETOUCH (SUBTLE): ''"

definition label_preserveDetails :: string where
  "label_preserveDetails = ''PRESERVE DETAILS (''"

definition label_hairStyling :: string where
  "label_hairStyling = ''HAIR STYLING: ''"

definition label_background :: string where
  "label_background = ''BACKGROUND: ''"

definition label_crop :: string where
  "label_crop = ''CROP/ROTATE: ''"

definition label_distractions :: string where
  "label_distractions = ''OBJECT REMOVAL: ''"

definition label_noiseAndOptics :: string where
  "label_noiseAndOptics = ''NOISE & OPTICS CORRECTION: ''"

definition superResolutionOp :: "ToolStates \<Rightarrow> string" where
  "superResolutionOp t =
     label_superResolution @ ''Perform a high-quality '' @ upscaleStr (sr_upscale (superResolution t))
     @ '' super-resolution upscale, effectively doubling the image's pixel dimensions. The primary goal is to reconstruct and synthesize photorealistic fine details. Enhance textures like skin pores, individual hair strands, and fabric weaves with exceptional clarity. The final image must be sharp and artifact-free. Do not simply enlarge and smooth the image; new, believable detail must be generated.''"

definition wbText :: "ColorTone \<Rightarrow> string" where
  "wbText c =
     (''WB '' @ whiteBalanceStr (ct_whiteBalance c))
     @ (if ct_whiteBalance c = WbCustom
        then '' (temp:'' @ showInt (ct_temp c) @ '', tint:'' @ showInt (ct_tint c) @ '')''
        else [])"

definition colorToneOp :: "ToolStates \<Rightarrow> string" where
  "colorToneOp t =
     label_colorTone @ wbText (colorTone t)
     @ ''; exposure '' @ showInt (ct_exposure (colorTone t))
     @ ''; contrast '' @ showInt (ct_contrast (colorTone t))
     @ ''; highlights/shadows recover; vibrance '' @ showInt (ct_vibrance (colorTone t))
     @ ''; saturation '' @ showInt (ct_saturation (colorTone t))
     @ ''; skin tone '' @ skinToneStr (ct_skinTone (colorTone t)) @ ''.''"

definition onOff :: "bool \<Rightarrow> string" where
  "onOff b = (if b then ''on'' else ''off'')"

definition facialRetouchOp :: "ToolStates \<Rightarrow> string" where
  "facialRetouchOp t =
     label_facialRetouch @ ''intensity '' @ intensityStr (fr_intensity (facialRetouch t))
     @ ''; eyes '' @ onOff (fr_eyeEnhance (facialRetouch t))
     @ ''; teeth '' @ onOff (fr_teethWhiten (facialRetouch t))
     @ ''; keep pores/texture; reduce shine; soften fine wrinkles/under-eye; reduce glasses glare; DO NOT change identity/age/facial structure/expression.''"

definition preserveDetailsOp :: "ToolStates \<Rightarrow> string" where
  "preserveDetailsOp t =
     label_preserveDetails @ toUpperCase (strengthStr (pd_strength (preserveDetails t)))
     @ ''): Meticulously preserve unique, defining facial features like moles, scars, freckles, and birthmarks. Do not remove, soften, or alter them. Ensure original skin and fabric textures are fully maintained.''"

definition hairText :: "HairStyling \<Rightarrow> string" where
  \<open>hairText h =
     (''mode: '' @ hairModeStr (hs_mode h))
     @ (if hs_mode h = HairColor then '', color: '' @ hs_color h else [])
     @ (if hs_mode h = HairCustom then '', instruction: "'' @ hs_customInstruction h @ ''"'' else [])\<close>

definition hairStylingOp :: "ToolStates \<Rightarrow> string" where
  "hairStylingOp t =
     label_hairStyling @ hairText (hairStyling t)
     @ ''; maintain realistic texture/shine; precise masking; no color bleed.''"

definition bgText :: "Background \<Rightarrow> string" where
  \<open>bgText b =
     (''mode: '' @ backgroundModeStr (bg_mode b))
     @ (if bg_mode b = BgSolid then '', color: '' @ bg_solidColor b else [])
     @ (if bg_mode b = BgCustom then '', instruction: "'' @ bg_customInstruction b @ ''"'' else [])\<close>

definition backgroundOp :: "ToolStates \<Rightarrow> string" where
  "backgroundOp t =
     label_background @ bgText (background t)
     @ ''; hair-safe matting; realistic shadows; no halos/spill.''"

definition cropOp :: "ToolStates \<Rightarrow> string" where
  "cropOp t =
     label_crop @ ''aspect '' @ aspectRatioStr (cr_aspectRatio (crop t))
     @ ''; straightened; safe headroom; keep ears/hair.''"

definition distractionsOp :: "ToolStates \<Rightarrow> string" where
  \<open>distractionsOp t =
     label_distractions @ ''Carefully and seamlessly remove the following distractions: "''
     @ trim (ds_list (distractions t))
     @ ''". Fill the area with realistic, context-aware content. The edit must be undetectable.''\<close>

text \<open>The local array \<^verbatim>\<open>corrections\<close> of the noise and optics branch.\<close>

definition corrections :: "NoiseAndOptics \<Rightarrow> string list" where
  "corrections n =
     (if no_lumaNoise n > 0
      then [''luma noise reduction ('' @ showInt (no_lumaNoise n) @ ''/10)''] else [])
     @ (if no_chromaNoise n > 0
        then [''chroma noise reduction ('' @ showInt (no_chromaNoise n) @ ''/10)''] else [])
     @ (if no_caFix n > 0
        then [''chromatic aberration correction ('' @ showInt (no_caFix n) @ ''/10)''] else [])
     @ (if no_vignette n \<noteq> 0
        then [''vignette correction ('' @ showInt (no_vignette n) @ ''/10)''] else [])
     @ (if no_distortion n \<noteq> 0
        then [''lens distortion correction ('' @ showInt (no_distortion n) @ ''/10)''] else [])"

definition noiseAndOpticsOp :: "ToolStates \<Rightarrow> string" where
  "noiseAndOpticsOp t =
     label_noiseAndOptics @ join '', '' (corrections (noiseAndOptics t)) @ ''.''"

text \<open>
  The array \<^verbatim>\<open>ops\<close> when the pushes are over: each \<^verbatim>\<open>if\<close> of the source, in the source's
  order, adds its clause or nothing.
\<close>

definition buildPrompt_ops :: "ToolStates \<Rightarrow> string list" where
  "buildPrompt_ops t =
     (if sr_enabled (superResolution t) then [superResolutionOp t] else [])
     @ (if ct_enabled (colorTone t) then [colorToneOp t] else [])
     @ (if fr_enabled (facialRetouch t) then [facialRetouchOp t] else [])
     @ (if pd_enabled (preserveDetails t) then [preserveDetailsOp t] else [])
     @ (if hs_enabled (hairStyling t) \<and> hs_mode (hairStyling t) \<noteq> HairKeep
        then [hairStylingOp t] else [])
     @ (if bg_enabled (background t) then [backgroundOp t] else [])
     @ (if cr_enabled (crop t) then [cropOp t] else [])
     @ (if ds_enabled (distractions t) \<and> trim (ds_list (distractions t)) \<noteq> []
        then [distractionsOp t] else [])
     @ (if no_enabled (noiseAndOptics t) \<and> length (corrections (noiseAndOptics t)) > 0
        then [noiseAndOpticsOp t] else [])"

text \<open>\<^verbatim>\<open>ops.map((op, i) => `${i + 1}) ${op}`).join("\n")\<close>\<close>

definition numberedOps :: "string list \<Rightarrow> string" where
  "numberedOps ops =
     join ''\<newline>'' (map (\<lambda>(i, op). showNat (i + 1) @ '') '' @ op) (zip [0 ..< length ops] ops))"

definition promptHead :: string where
  "promptHead = ''Enhance this PORTRAIT while preserving identity and realism.\<newline>\<newline>ORDER OF OPERATIONS:\<newline>''"

definition promptTail :: string where
  "promptTail = ''\<newline>\<newline>CONSISTENCY: same intensity across faces; consistent skin tone.\<newline>LIMITS: no style transfer; no makeup/clothing/body reshaping/new objects.\<newline>OUTPUT: single high-res PNG (sRGB).''"

definition buildPrompt :: "ToolStates \<Rightarrow> string" where
  "buildPrompt t = promptHead @ numberedOps (buildPrompt_ops t) @ promptTail"

text \<open>
  Recognising clauses. A tool group's clause is an element of \<^verbatim>\<open>ops\<close> that starts with
  the group's label; \<open>canonicalOrder\<close> is the order of the nine \<^verbatim>\<open>if\<close> statements.
\<close>

datatype ToolGroup =
  GSuperResolution | GColorTone | GFacialRetouch | GPreserveDetails | GHairStyling
  | GBackground | GCrop | GDistractions | GNoiseAndOptics

fun label :: "ToolGroup \<Rightarrow> string" where
  "label GSuperResolution = label_superResolution"
| "label GColorTone = label_colorTone"
| "label GFacialRetouch = label_facialRetouch"
| "label GPreserveDetails = label_preserveDetails"
| "label GHairStyling = label_hairStyling"
| "label GBackground = label_background"
| "label GCrop = label_crop"
| "label GDistractions = label_distractions"
| "label GNoiseAndOptics = label_noiseAndOptics"

definition canonicalOrder :: "ToolGroup list" where
  "canonicalOrder =
     [GSuperResolution, GColorTone, GFacialRetouch, GPreserveDetails, GHairStyling,
      GBackground, GCrop, GDistractions, GNoiseAndOptics]"

definition clauseGroup :: "string \<Rightarrow> ToolGroup option" where
  "clauseGroup op = List.find (\<lambda>g. prefix (label g) op) canonicalOrder"

definition hasClause :: "ToolGroup \<Rightarrow> string list \<Rightarrow> bool" where
  "hasClause g ops = (Some g \<in> set (map clauseGroup ops))"

section \<open>Application state and \<^verbatim>\<open>appReducer\<close>\<close>

text \<open>
  Field prefixes: \<open>f_\<close> ImageFile, \<open>p_\<close> Preset, \<open>b_\<close> BatchItem, \<open>u_\<close> the payload of
  \<^verbatim>\<open>UPDATE_BATCH_ITEM\<close>, \<open>t_\<close> the toast, \<open>h_\<close> a history entry. An optional property
  (\<^verbatim>\<open>result?\<close>, \<^verbatim>\<open>isBuiltIn?\<close>) and a nullable one are \<^typ>\<open>'a option\<close>.
\<close>

datatype ModelName = Gemini_2_5_flash_image_preview
datatype Status = Pending | Processing | Done | Error | Cancelled
datatype ToastType = Success | ErrorToast

record ImageFile =
  f_name :: string
  f_type :: string
  f_data :: string

record Preset =
  p_id :: string
  p_name :: string
  p_tools :: ToolStates
  p_isBuiltIn :: "bool option"

record BatchItem =
  b_id :: string
  b_file :: ImageFile
  b_status :: Status
  b_result :: "string option"
  b_prompt :: "string option"
  b_error :: "string option"
  b_preset :: "ToolStates option"

text \<open>\<^verbatim>\<open>Partial<BatchItem> & { id: string }\<close>: a property that is absent is \<open>None\<close>.\<close>

record BatchItemUpdate =
  u_id :: string
  u_file :: "ImageFile option"
  u_status :: "Status option"
  u_result :: "string option"
  u_prompt :: "string option"
  u_error :: "string option"
  u_preset :: "ToolStates option"

record Toast =
  t_id :: nat
  t_message :: string
  t_type :: ToastType

record HistoryEntry =
  h_tools :: ToolStates

record AppState =
  history :: "HistoryEntry list"
  historyIndex :: nat
  currentImage :: "ImageFile option"
  enhancedImage :: "string option"
  isLoading :: bool
  toast :: "Toast option"
  activeModel :: ModelName
  tools :: ToolStates
  currentPrompt :: string
  userPresets :: "Preset list"
  showBuiltInPresets :: bool
  batchQueue :: "BatchItem list"
  enhancedLibrary :: "BatchItem list"

text \<open>
  The \<^verbatim>\<open>settings\<close> of \<^verbatim>\<open>UPDATE_TOOL\<close>: a partial sub-record of one tool group, written as
  the list of the properties it sets (a later one wins, as in an object literal). The
  constructor of \<open>ToolSettings\<close> is the \<^verbatim>\<open>tool\<close> key.
\<close>

datatype SuperResolutionField = Set_sr_enabled bool | Set_sr_upscale Upscale

datatype ColorToneField =
  Set_ct_enabled bool | Set_ct_whiteBalance WhiteBalance | Set_ct_temp int | Set_ct_tint int
  | Set_ct_exposure int | Set_ct_contrast int | Set_ct_highlights int | Set_ct_shadows int
  | Set_ct_vibrance int | Set_ct_saturation int | Set_ct_skinTone SkinTone

datatype FacialRetouchField =
  Set_fr_enabled bool | Set_fr_intensity Intensity | Set_fr_eyeEnhance bool
  | Set_fr_teethWhiten bool

datatype PreserveDetailsField = Set_pd_enabled bool | Set_pd_strength Strength

datatype HairStylingField =
  Set_hs_enabled bool | Set_hs_mode HairMode | Set_hs_color string
  | Set_hs_customInstruction string

datatype BackgroundField =
  Set_bg_enabled bool | Set_bg_mode BackgroundMode | Set_bg_solidColor string
  | Set_bg_customInstruction string

datatype CropField = Set_cr_enabled bool | Set_cr_aspectRatio AspectRatio

datatype DistractionsField = Set_ds_enabled bool | Set_ds_list string

datatype NoiseAndOpticsField =
  Set_no_enabled bool | Set_no_lumaNoise int | Set_no_chromaNoise int | Set_no_caFix int
  | Set_no_vignette int | Set_no_distortion int

datatype ToolSettings =
  SuperResolutionSettings "SuperResolutionField list"
  | ColorToneSettings "ColorToneField list"
  | FacialRetouchSettings "FacialRetouchField list"
  | PreserveDetailsSettings "PreserveDetailsField list"
  | HairStylingSettings "HairStylingField list"
  | BackgroundSettings "BackgroundField list"
  | CropSettings "CropField list"
  | DistractionsSettings "DistractionsField list"
  | NoiseAndOpticsSettings "NoiseAndOpticsField list"

fun set_sr :: "SuperResolutionField \<Rightarrow> SuperResolution \<Rightarrow> SuperResolution" where
  "set_sr (Set_sr_enabled v) r = r\<lparr>sr_enabled := v\<rparr>"
| "set_sr (Set_sr_upscale v) r = r\<lparr>sr_upscale := v\<rparr>"

fun set_ct :: "ColorToneField \<Rightarrow> ColorTone \<Rightarrow> ColorTone" where
  "set_ct (Set_ct_enabled v) r = r\<lparr>ct_enabled := v\<rparr>"
| "set_ct (Set_ct_whiteBalance v) r = r\<lparr>ct_whiteBalance := v\<rparr>"
| "set_ct (Set_ct_temp v) r = r\<lparr>ct_temp := v\<rparr>"
| "set_ct (Set_ct_tint v) r = r\<lparr>ct_tint := v\<rparr>"
| "set_ct (Set_ct_exposure v) r = r\<lparr>ct_exposure := v\<rparr>"
| "set_ct (Set_ct_contrast v) r = r\<lparr>ct_contrast := v\<rparr>"
| "set_ct (Set_ct_highlights v) r = r\<lparr>ct_highlights := v\<rparr>"
| "set_ct (Set_ct_shadows v) r = r\<lparr>ct_shadows := v\<rparr>"
| "set_ct (Set_ct_vibrance v) r = r\<lparr>ct_vibrance := v\<rparr>"
| "set_ct (Set_ct_saturation v) r = r\<lparr>ct_saturation := v\<rparr>"
| "set_ct (Set_ct_skinTone v) r = r\<lparr>ct_skinTone := v\<rparr>"

fun set_fr :: "FacialRetouchField \<Rightarrow> FacialRetouch \<Rightarrow> FacialRetouch" where
  "set_fr (Set_fr_enabled v) r = r\<lparr>fr_enabled := v\<rparr>"
| "set_fr (Set_fr_intensity v) r = r\<lparr>fr_intensity := v\<rparr>"
| "set_fr (Set_fr_eyeEnhance v) r = r\<lparr>fr_eyeEnhance := v\<rparr>"
| "set_fr (Set_fr_teethWhiten v) r = r\<lparr>fr_teethWhiten := v\<rparr>"

fun set_pd :: "PreserveDetailsField \<Rightarrow> PreserveDetails \<Rightarrow> PreserveDetails" where
  "set_pd (Set_pd_enabled v) r = r\<lparr>pd_enabled := v\<rparr>"
| "set_pd (Set_pd_strength v) r = r\<lparr>pd_strength := v\<rparr>"

fun set_hs :: "HairStylingField \<Rightarrow> HairStyling \<Rightarrow> HairStyling" where
  "set_hs (Set_hs_enabled v) r = r\<lparr>hs_enabled := v\<rparr>"
| "set_hs (Set_hs_mode v) r = r\<lparr>hs_mode := v\<rparr>"
| "set_hs (Set_hs_color v) r = r\<lparr>hs_color := v\<rparr>"
| "set_hs (Set_hs_customInstruction v) r = r\<lparr>hs_customInstruction := v\<rparr>"

fun set_bg :: "BackgroundField \<Rightarrow> Background \<Rightarrow> Background" where
  "set_bg (Set_bg_enabled v) r = r\<lparr>bg_enabled := v\<rparr>"
| "set_bg (Set_bg_mode v) r = r\<lparr>bg_mode := v\<rparr>"
| "set_bg (Set_bg_solidColor v) r = r\<lparr>bg_solidColor := v\<rparr>"
| "set_bg (Set_bg_customInstruction v) r = r\<lparr>bg_customInstruction := v\<rparr>"

fun set_cr :: "CropField \<Rightarrow> Crop \<Rightarrow> Crop" where
  "set_cr (Set_cr_enabled v) r = r\<lparr>cr_enabled := v\<rparr>"
| "set_cr (Set_cr_aspectRatio v) r = r\<lparr>cr_aspectRatio := v\<rparr>"

fun set_ds :: "DistractionsField \<Rightarrow> Distractions \<Rightarrow> Distractions" where
  "set_ds (Set_ds_enabled v) r = r\<lparr>ds_enabled := v\<rparr>"
| "set_ds (Set_ds_list v) r = r\<lparr>ds_list := v\<rparr>"

fun set_no :: "NoiseAndOpticsField \<Rightarrow> NoiseAndOptics \<Rightarrow> NoiseAndOptics" where
  "set_no (Set_no_enabled v) r = r\<lparr>no_enabled := v\<rparr>"
| "set_no (Set_no_lumaNoise v) r = r\<lparr>no_lumaNoise := v\<rparr>"
| "set_no (Set_no_chromaNoise v) r = r\<lparr>no_chromaNoise := v\<rparr>"
| "set_no (Set_no_caFix v) r = r\<lparr>no_caFix := v\<rparr>"
| "set_no (Set_no_vignette v) r = r\<lparr>no_vignette := v\<rparr>"
| "set_no (Set_no_distortion v) r = r\<lparr>no_distortion := v\<rparr>"

text \<open>\<^verbatim>\<open>{ ...state.tools, [tool]: { ...state.tools[tool], ...settings } }\<close>\<close>

fun mergeTool :: "ToolStates \<Rightarrow> ToolSettings \<Rightarrow> ToolStates" where
  "mergeTool t (SuperResolutionSettings fs) = t\<lparr>superResolution := fold set_sr fs (superResolution t)\<rparr>"
| "mergeTool t (ColorToneSettings fs) = t\<lparr>colorTone := fold set_ct fs (colorTone t)\<rparr>"
| "mergeTool t (FacialRetouchSettings fs) = t\<lparr>facialRetouch := fold set_fr fs (facialRetouch t)\<rparr>"
| "mergeTool t (PreserveDetailsSettings fs) = t\<lparr>preserveDetails := fold set_pd fs (preserveDetails t)\<rparr>"
| "mergeTool t (HairStylingSettings fs) = t\<lparr>hairStyling := fold set_hs fs (hairStyling t)\<rparr>"
| "mergeTool t (BackgroundSettings fs) = t\<lparr>background := fold set_bg fs (background t)\<rparr>"
| "mergeTool t (CropSettings fs) = t\<lparr>crop := fold set_cr fs (crop t)\<rparr>"
| "mergeTool t (DistractionsSettings fs) = t\<lparr>distractions := fold set_ds fs (distractions t)\<rparr>"
| "mergeTool t (NoiseAndOpticsSettings fs) = t\<lparr>noiseAndOptics := fold set_no fs (noiseAndOptics t)\<rparr>"

text \<open>
  The actions. \<^verbatim>\<open>SHOW_TOAST\<close> carries the value \<^verbatim>\<open>Date.now()\<close> has when the reducer reads
  it; \<^verbatim>\<open>ADD_TO_BATCH\<close> pairs every file with the values of \<^verbatim>\<open>Date.now()\<close> and of
  \<^verbatim>\<open>Math.random()\<close> (as the template string renders it) that the reducer reads for it.
\<close>

datatype Action =
  UPDATE_TOOL ToolSettings
  | UNDO
  | REDO
  | SET_IMAGE "ImageFile option"
  | SELECT_BATCH_ITEM BatchItem
  | ENHANCE_START
  | ENHANCE_SUCCESS string string
  | ENHANCE_FAILURE string
  | SHOW_TOAST nat string ToastType
  | HIDE_TOAST
  | RESET_STATE
  | TOGGLE_BUILTIN_PRESETS
  | SAVE_PRESET Preset
  | LOAD_PRESET ToolStates
  | DELETE_PRESET string
  | RENAME_PRESET string string
  | IMPORT_PRESETS "Preset list"
  | ADD_TO_BATCH "(ImageFile \<times> nat \<times> string) list"
  | UPDATE_BATCH_ITEM BatchItemUpdate
  | CLEAR_BATCH
  | APPLY_PRESET_TO_BATCH ToolStates
  | SET_ENHANCED_IMAGE "string option"
  | ADD_TO_LIBRARY BatchItem
  | REMOVE_FROM_LIBRARY string
  | CLEAR_LIBRARY
  | LOAD_LIBRARY "BatchItem list"

text \<open>Reading \<^verbatim>\<open>state.history[i].tools\<close> at an index with no entry throws a TypeError.\<close>

datatype ReducerError = TypeError

definition initialState :: AppState where
  "initialState = \<lparr>
     history = [\<lparr> h_tools = initialToolStates \<rparr>], historyIndex = 0,
     currentImage = None, enhancedImage = None, isLoading = False, toast = None,
     activeModel = Gemini_2_5_flash_image_preview, tools = initialToolStates,
     currentPrompt = [],
     userPresets = [], showBuiltInPresets = False, batchQueue = [], enhancedLibrary = [] \<rparr>"

text \<open>\<^verbatim>\<open>a || b\<close> on an optional object.\<close>

definition orElse :: "'a option \<Rightarrow> 'a \<Rightarrow> 'a" where
  "orElse x d = (case x of Some v \<Rightarrow> v | None \<Rightarrow> d)"

text \<open>\<^verbatim>\<open>action.payload.result || null\<close>: the empty string is falsy as well.\<close>

definition resultOrNull :: "string option \<Rightarrow> string option" where
  "resultOrNull r = (case r of Some v \<Rightarrow> (if v = [] then None else Some v) | None \<Rightarrow> None)"

text \<open>\<^verbatim>\<open>`${file.name}-${Date.now()}-${Math.random()}`\<close>\<close>

definition batchItemId :: "ImageFile \<Rightarrow> nat \<Rightarrow> string \<Rightarrow> string" where
  "batchItemId file now rnd = f_name file @ ''-'' @ showNat now @ ''-'' @ rnd"

definition newBatchItem :: "ToolStates \<Rightarrow> ImageFile \<times> nat \<times> string \<Rightarrow> BatchItem" where
  "newBatchItem ts x =
     (case x of (file, now, rnd) \<Rightarrow>
        \<lparr> b_id = batchItemId file now rnd, b_file = file, b_status = Pending,
          b_result = None, b_prompt = None, b_error = None, b_preset = Some ts \<rparr>)"

text \<open>\<^verbatim>\<open>{ ...item, ...action.payload }\<close>\<close>

definition mergeBatchItem :: "BatchItem \<Rightarrow> BatchItemUpdate \<Rightarrow> BatchItem" where
  "mergeBatchItem item u =
     \<lparr> b_id = u_id u,
       b_file = orElse (u_file u) (b_file item),
       b_status = orElse (u_status u) (b_status item),
       b_result = (case u_result u of Some v \<Rightarrow> Some v | None \<Rightarrow> b_result item),
       b_prompt = (case u_prompt u of Some v \<Rightarrow> Some v | None \<Rightarrow> b_prompt item),
       b_error = (case u_error u of Some v \<Rightarrow> Some v | None \<Rightarrow> b_error item),
       b_preset = (case u_preset u of Some v \<Rightarrow> Some v | None \<Rightarrow> b_preset item) \<rparr>"

text \<open>
  The filter of \<^verbatim>\<open>IMPORT_PRESETS\<close>, \<^verbatim>\<open>p.id && p.name && p.tools && !p.isBuiltIn\<close> (an
  object is truthy, an empty string is not), and its \<^verbatim>\<open>forEach\<close>.
\<close>

definition importable :: "Preset \<Rightarrow> bool" where
  "importable p = (p_id p \<noteq> [] \<and> p_name p \<noteq> [] \<and> p_isBuiltIn p \<noteq> Some True)"

definition pushIfNew :: "Preset \<Rightarrow> Preset list \<Rightarrow> Preset list" where
  "pushIfNew p updatedPresets =
     (if \<not> list_ex (\<lambda>up. p_id up = p_id p) updatedPresets then updatedPresets @ [p]
      else updatedPresets)"

fun appReducer :: "AppState \<Rightarrow> Action \<Rightarrow> ReducerError + AppState" where
  "appReducer state (UPDATE_TOOL settings) =
     (let newTools = mergeTool (tools state) settings;
          newHistory = take (historyIndex state + 1) (history state) @ [\<lparr> h_tools = newTools \<rparr>]
      in Inr (state\<lparr> tools := newTools, history := newHistory,
                     historyIndex := length newHistory - 1 \<rparr>))"
| "appReducer state UNDO =
     (if historyIndex state > 0 then
        (let i = historyIndex state - 1
         in if i < length (history state)
            then Inr (state\<lparr> historyIndex := i, tools := h_tools (history state ! i) \<rparr>)
            else Inl TypeError)
      else Inr state)"
| "appReducer state REDO =
     (if int (historyIndex state) < int (length (history state)) - 1 then
        (let i = historyIndex state + 1
         in if i < length (history state)
            then Inr (state\<lparr> historyIndex := i, tools := h_tools (history state ! i) \<rparr>)
            else Inl TypeError)
      else Inr state)"
| "appReducer state (SET_IMAGE payload) =
     Inr (state\<lparr> currentImage := payload, enhancedImage := None, isLoading := False,
                 history := [\<lparr> h_tools = tools state \<rparr>], historyIndex := 0 \<rparr>)"
| "appReducer state (SELECT_BATCH_ITEM payload) =
     Inr (state\<lparr> currentImage := Some (b_file payload),
                 enhancedImage := resultOrNull (b_result payload),
                 tools := orElse (b_preset payload) (tools state),
                 history := [\<lparr> h_tools = orElse (b_preset payload) (tools state) \<rparr>],
                 historyIndex := 0 \<rparr>)"
| "appReducer state ENHANCE_START = Inr (state\<lparr> isLoading := True, enhancedImage := None \<rparr>)"
| "appReducer state (ENHANCE_SUCCESS img prompt) =
     Inr (state\<lparr> isLoading := False, enhancedImage := Some img, currentPrompt := prompt \<rparr>)"
| "appReducer state (ENHANCE_FAILURE msg) = Inr (state\<lparr> isLoading := False \<rparr>)"
| "appReducer state (SHOW_TOAST now message ty) =
     Inr (state\<lparr> toast := Some \<lparr> t_id = now, t_message = message, t_type = ty \<rparr> \<rparr>)"
| "appReducer state HIDE_TOAST = Inr (state\<lparr> toast := None \<rparr>)"
| "appReducer state RESET_STATE =
     Inr (initialState\<lparr> currentImage := currentImage state, userPresets := userPresets state,
                        showBuiltInPresets := showBuiltInPresets state,
                        batchQueue := batchQueue state,
                        enhancedLibrary := enhancedLibrary state \<rparr>)"
| "appReducer state TOGGLE_BUILTIN_PRESETS =
     Inr (state\<lparr> showBuiltInPresets := \<not> showBuiltInPresets state \<rparr>)"
| "appReducer state (SAVE_PRESET preset) =
     Inr (state\<lparr> userPresets := userPresets state @ [preset] \<rparr>)"
| "appReducer state (LOAD_PRESET ts) =
     (let newHistory = take (historyIndex state + 1) (history state) @ [\<lparr> h_tools = ts \<rparr>]
      in Inr (state\<lparr> tools := ts, history := newHistory,
                     historyIndex := length newHistory - 1 \<rparr>))"
| "appReducer state (DELETE_PRESET pid) =
     Inr (state\<lparr> userPresets := filter (\<lambda>p. p_id p \<noteq> pid) (userPresets state) \<rparr>)"
| "appReducer state (RENAME_PRESET pid nm) =
     Inr (state\<lparr> userPresets :=
            map (\<lambda>p. if p_id p = pid then p\<lparr> p_name := nm \<rparr> else p) (userPresets state) \<rparr>)"
| "appReducer state (IMPORT_PRESETS presets) =
     (let incomingPresets = filter importable presets
      in Inr (state\<lparr> userPresets := fold pushIfNew incomingPresets (userPresets state) \<rparr>))"
| "appReducer state (ADD_TO_BATCH files) =
     (let newItems = map (newBatchItem (tools state)) files
      in Inr (state\<lparr> batchQueue := batchQueue state @ newItems \<rparr>))"
| "appReducer state (UPDATE_BATCH_ITEM payload) =
     Inr (state\<lparr> batchQueue :=
            map (\<lambda>item. if b_id item = u_id payload then mergeBatchItem item payload else item)
              (batchQueue state) \<rparr>)"
| "appReducer state CLEAR_BATCH = Inr (state\<lparr> batchQueue := [] \<rparr>)"
| "appReducer state (APPLY_PRESET_TO_BATCH ts) =
     Inr (state\<lparr> batchQueue :=
            map (\<lambda>item. if b_status item = Pending then item\<lparr> b_preset := Some ts \<rparr> else item)
              (batchQueue state) \<rparr>)"
| "appReducer state (SET_ENHANCED_IMAGE payload) = Inr (state\<lparr> enhancedImage := payload \<rparr>)"
| "appReducer state (ADD_TO_LIBRARY item) =
     Inr (state\<lparr> enhancedLibrary :=
            item # filter (\<lambda>x. b_id x \<noteq> b_id item) (enhancedLibrary state) \<rparr>)"
| "appReducer state (REMOVE_FROM_LIBRARY lid) =
     Inr (state\<lparr> enhancedLibrary := filter (\<lambda>x. b_id x \<noteq> lid) (enhancedLibrary state) \<rparr>)"
| "appReducer state CLEAR_LIBRARY = Inr (state\<lparr> enhancedLibrary := [] \<rparr>)"
| "appReducer state (LOAD_LIBRARY library) = Inr (state\<lparr> enhancedLibrary := library \<rparr>)"

text \<open>Dispatching a list of actions in order; a throwing reducer call ends the run.\<close>

fun dispatchAll :: "AppState \<Rightarrow> Action list \<Rightarrow> ReducerError + AppState" where
  "dispatchAll state [] = Inr state"
| "dispatchAll state (a # as) =
     (case appReducer state a of Inl e \<Rightarrow> Inl e | Inr state' \<Rightarrow> dispatchAll state' as)"

text \<open>\<^verbatim>\<open>current()\<close> of the history: the entry the index addresses, when there is one.\<close>

definition current :: "AppState \<Rightarrow> ToolStates option" where
  "current state =
     (if historyIndex state < length (history state)
      then Some (h_tools (history state ! historyIndex state)) else None)"

section \<open>The enhancement call and the batch scheduler\<close>

text \<open>
  The client \<^verbatim>\<open>ai\<close> is \<open>None\<close> when no API key is configured. The generation service is
  outside the program: a client is any function from the request to what the awaited
  call gives, a thrown value or a response. Of a response the code reads the parts of the
  candidates (a missing level reads as no parts) and \<^verbatim>\<open>response.text\<close> (a missing text is
  falsy like the empty one).
\<close>

datatype Thrown = ErrorObj string | NonError

datatype Part = InlineData string string | OtherPart

record GenerateResponse =
  r_candidates :: "Part list list"
  r_text :: string

record GenerateRequest =
  q_model :: ModelName
  q_data :: "string option"
  q_mimeType :: string
  q_text :: string

type_synonym Client = "GenerateRequest \<Rightarrow> Thrown + GenerateResponse"

record EnhanceResult =
  e_image :: string
  e_prompt :: string

text \<open>\<^verbatim>\<open>s.split(",")\<close> and reading an array index that may be absent.\<close>

fun splitOn :: "char \<Rightarrow> string \<Rightarrow> string list" where
  "splitOn c [] = [[]]"
| "splitOn c (x # xs) =
     (if x = c then [] # splitOn c xs
      else (case splitOn c xs of [] \<Rightarrow> [[x]] | w # ws \<Rightarrow> (x # w) # ws))"

definition nthOpt :: "'a list \<Rightarrow> nat \<Rightarrow> 'a option" where
  "nthOpt xs i = (if i < length xs then Some (xs ! i) else None)"

fun firstInlineData :: "Part list \<Rightarrow> (string \<times> string) option" where
  "firstInlineData [] = None"
| "firstInlineData (InlineData mimeType d # ps) = Some (mimeType, d)"
| "firstInlineData (OtherPart # ps) = firstInlineData ps"

definition missingApiKeyMessage :: string where
  "missingApiKeyMessage = ''Missing API key. Set AI_STUDIO_API_KEY, VITE_API_KEY, or process.env.API_KEY.''"

definition noImageMessage :: string where
  "noImageMessage = ''The AI did not return an image. It may have refused the request.''"

definition enhanceImage ::
  "Client option \<Rightarrow> ImageFile \<Rightarrow> ToolStates \<Rightarrow> ModelName \<Rightarrow> Thrown + EnhanceResult" where
  "enhanceImage ai img ts model =
     (case ai of
        None \<Rightarrow> Inl (ErrorObj missingApiKeyMessage)
      | Some client \<Rightarrow>
          (let prompt = buildPrompt ts;
               base64Data = nthOpt (splitOn CHR '','' (f_data img)) 1
           in case client \<lparr> q_model = model, q_data = base64Data, q_mimeType = f_type img,
                             q_text = prompt \<rparr> of
                Inl thrown \<Rightarrow> Inl thrown
              | Inr response \<Rightarrow>
                  (case firstInlineData (case r_candidates response of [] \<Rightarrow> [] | cand # _ \<Rightarrow> cand) of
                     Some (mimeType, d) \<Rightarrow>
                       Inr \<lparr> e_image = ''data:'' @ mimeType @ '';base64,'' @ d, e_prompt = prompt \<rparr>
                   | None \<Rightarrow>
                       Inl (ErrorObj (if r_text response \<noteq> [] then r_text response
                                      else noImageMessage)))))"

text \<open>The batch effect of \<^verbatim>\<open>App\<close>: what it admits, and what it dispatches.\<close>

definition BATCH_CONCURRENCY :: nat where
  "BATCH_CONCURRENCY = 2"

definition itemsToProcess :: "BatchItem list \<Rightarrow> BatchItem list" where
  "itemsToProcess batchQ =
     (let processingItems = length (filter (\<lambda>i. b_status i = Processing) batchQ);
          pendingItems = filter (\<lambda>i. b_status i = Pending) batchQ
      in if processingItems \<ge> BATCH_CONCURRENCY \<or> length pendingItems = 0 then []
         else take (BATCH_CONCURRENCY - processingItems) pendingItems)"

definition statusUpdate :: "string \<Rightarrow> Status \<Rightarrow> BatchItemUpdate" where
  "statusUpdate i st =
     \<lparr> u_id = i, u_file = None, u_status = Some st, u_result = None, u_prompt = None,
       u_error = None, u_preset = None \<rparr>"

definition admitActions :: "BatchItem list \<Rightarrow> Action list" where
  "admitActions batchQ =
     map (\<lambda>item. UPDATE_BATCH_ITEM (statusUpdate (b_id item) Processing)) (itemsToProcess batchQ)"

text \<open>A whole batch item given as the payload: every property it has is in the payload.\<close>

definition asUpdate :: "BatchItem \<Rightarrow> BatchItemUpdate" where
  "asUpdate item =
     \<lparr> u_id = b_id item, u_file = Some (b_file item), u_status = Some (b_status item),
       u_result = b_result item, u_prompt = b_prompt item, u_error = b_error item,
       u_preset = b_preset item \<rparr>"

definition finishedItem :: "BatchItem \<Rightarrow> EnhanceResult \<Rightarrow> BatchItem" where
  "finishedItem item result =
     item\<lparr> b_status := Done, b_result := Some (e_image result), b_prompt := Some (e_prompt result) \<rparr>"

definition thrownMessage :: "Thrown \<Rightarrow> string" where
  "thrownMessage err = (case err of ErrorObj m \<Rightarrow> m | NonError \<Rightarrow> ''An unknown error occurred.'')"

text \<open>
  What the \<^verbatim>\<open>async\<close> callback of the effect dispatches once the awaited call is settled,
  for the item \<open>item\<close> it captured when the item was pending.
\<close>

definition onSettled :: "BatchItem \<Rightarrow> Thrown + EnhanceResult \<Rightarrow> Action list" where
  "onSettled item outcome =
     (case outcome of
        Inr result \<Rightarrow>
          [UPDATE_BATCH_ITEM (asUpdate (finishedItem item result)),
           ADD_TO_LIBRARY (finishedItem item result)]
      | Inl err \<Rightarrow>
          [UPDATE_BATCH_ITEM ((statusUpdate (b_id item) Error)\<lparr> u_error := Some (thrownMessage err) \<rparr>)])"

definition processItem ::
  "Client option \<Rightarrow> BatchItem \<Rightarrow> ToolStates \<Rightarrow> ModelName \<Rightarrow> Action list" where
  "processItem ai item ts model =
     onSettled item (enhanceImage ai (b_file item) (orElse (b_preset item) ts) model)"

text \<open>
  The cancel button of \<^verbatim>\<open>BatchQueue\<close>: rendered for a pending or processing item only.
\<close>

definition cancelClick :: "BatchItem list \<Rightarrow> string \<Rightarrow> Action list" where
  "cancelClick batchQ i =
     (if list_ex (\<lambda>item. b_id item = i \<and> (b_status item = Pending \<or> b_status item = Processing)) batchQ
      then [UPDATE_BATCH_ITEM (statusUpdate i Cancelled)] else [])"

text \<open>
  \<^verbatim>\<open>processFiles\<close>: a browser \<^verbatim>\<open>File\<close> with the data URL its reader gives; \<open>stamp k\<close> is
  what the reducer reads from the clock and the random generator for the \<open>k\<close>-th file.
\<close>

record File =
  file_name :: string
  file_type :: string
  file_size :: nat
  file_dataURL :: string

definition MAX_IMAGE_UPLOAD_SIZE_BYTES :: nat where
  "MAX_IMAGE_UPLOAD_SIZE_BYTES = 15 * 1024 * 1024"

definition readFile :: "File \<Rightarrow> ImageFile" where
  "readFile f = \<lparr> f_name = file_name f, f_type = file_type f, f_data = file_dataURL f \<rparr>"

definition processFiles ::
  "ImageFile option \<Rightarrow> File list \<Rightarrow> nat \<Rightarrow> (nat \<Rightarrow> nat \<times> string) \<Rightarrow> Action list" where
  "processFiles currentImg files now stamp =
     (let imageFiles = filter (\<lambda>f. prefix ''image/'' (file_type f)) files
      in if length imageFiles = 0
         then [SHOW_TOAST now ''No valid image files selected.'' ErrorToast]
         else (case List.find (\<lambda>f. file_size f > MAX_IMAGE_UPLOAD_SIZE_BYTES) imageFiles of
                 Some oversized \<Rightarrow>
                   [SHOW_TOAST now (''File '' @ file_name oversized @ '' is too large (max 15MB).'')
                      ErrorToast]
               | None \<Rightarrow>
                   (let results = map readFile imageFiles
                    in (if currentImg = None \<or> length imageFiles > 1
                        then [SET_IMAGE (nthOpt results 0)] else [])
                       @ [ADD_TO_BATCH (map (\<lambda>(k, r). (r, stamp k)) (zip [0 ..< length results] results)),
                          SHOW_TOAST now (showNat (length results) @ '' image(s) added to queue.'')
                            Success])))"

text \<open>
  The scheduler as a machine. The effect of \<^verbatim>\<open>App\<close> reads the \<^verbatim>\<open>batchQueue\<close> of the render
  that created it, and so do the cancel buttons; what is dispatched between that render
  and the run of the effect reaches the reducer first. The machine therefore keeps, next
  to the application state, the queue of the last render and whether the effect of that
  render is still to run. A render first runs the effect that is still to run (React
  flushes the effects of a render before it renders again).
\<close>

record Scheduler =
  app :: AppState
  rendered :: "BatchItem list"
  effectPending :: bool

definition mount :: "AppState \<Rightarrow> Scheduler" where
  "mount state = \<lparr> app = state, rendered = batchQueue state, effectPending = True \<rparr>"

text \<open>
  An event is one thing that happens: files are enqueued, a cancel button of the last
  render is clicked, the component renders, the effect of the last render runs, an
  outstanding call settles for the item its callback captured, the queue is cleared, a
  preset is applied to it. \<open>Tick\<close> is a render followed at once by its effect.
\<close>

datatype Event =
  Enqueue "(ImageFile \<times> nat \<times> string) list"
  | Cancel string
  | Render
  | RunEffect
  | Tick
  | Settled BatchItem "Thrown + EnhanceResult"
  | Clear
  | ApplyPreset ToolStates

fun eventActions :: "Scheduler \<Rightarrow> Event \<Rightarrow> Action list" where
  "eventActions sch (Enqueue files) = [ADD_TO_BATCH files]"
| "eventActions sch (Cancel i) = cancelClick (rendered sch) i"
| "eventActions sch RunEffect =
     (if effectPending sch then admitActions (rendered sch) else [])"
| "eventActions sch (Settled item outcome) = onSettled item outcome"
| "eventActions sch Clear = [CLEAR_BATCH]"
| "eventActions sch (ApplyPreset ts) = [APPLY_PRESET_TO_BATCH ts]"
| "eventActions sch Render = []"
| "eventActions sch Tick = []"

definition dispatchEvent :: "Scheduler \<Rightarrow> Event \<Rightarrow> ReducerError + Scheduler" where
  "dispatchEvent sch ev =
     (case dispatchAll (app sch) (eventActions sch ev) of
        Inl e \<Rightarrow> Inl e
      | Inr state' \<Rightarrow> Inr (sch\<lparr> app := state' \<rparr>))"

definition runEffect :: "Scheduler \<Rightarrow> ReducerError + Scheduler" where
  "runEffect sch =
     (case dispatchEvent sch RunEffect of
        Inl e \<Rightarrow> Inl e
      | Inr sch' \<Rightarrow> Inr (sch'\<lparr> effectPending := False \<rparr>))"

definition render :: "Scheduler \<Rightarrow> ReducerError + Scheduler" where
  "render sch =
     (case runEffect sch of
        Inl e \<Rightarrow> Inl e
      | Inr sch' \<Rightarrow> Inr (sch'\<lparr> rendered := batchQueue (app sch'), effectPending := True \<rparr>))"

fun schedulerStep :: "Scheduler \<Rightarrow> Event \<Rightarrow> ReducerError + Scheduler" where
  "schedulerStep sch Render = render sch"
| "schedulerStep sch RunEffect = runEffect sch"
| "schedulerStep sch Tick = (case render sch of Inl e \<Rightarrow> Inl e | Inr sch' \<Rightarrow> runEffect sch')"
| "schedulerStep sch ev = dispatchEvent sch ev"

fun runEvents :: "Scheduler \<Rightarrow> Event list \<Rightarrow> ReducerError + Scheduler" where
  "runEvents sch [] = Inr sch"
| "runEvents sch (ev # evs) =
     (case schedulerStep sch ev of Inl e \<Rightarrow> Inl e | Inr sch' \<Rightarrow> runEvents sch' evs)"

text \<open>The application state after the events, from the first render of a state.\<close>

definition runScheduler :: "AppState \<Rightarrow> Event list \<Rightarrow> ReducerError + AppState" where
  "runScheduler state evs =
     (case runEvents (mount state) evs of Inl e \<Rightarrow> Inl e | Inr sch \<Rightarrow> Inr (app sch))"

definition processingCount :: "AppState \<Rightarrow> nat" where
  "processingCount state = length (filter (\<lambda>i. b_status i = Processing) (batchQueue state))"

text \<open>
  The ids an event adds to the queue, and the condition that the id template never
  repeats an id: the ids an enqueue adds differ from each other and from the ids in the
  queue.
\<close>

fun newIds :: "Event \<Rightarrow> string list" where
  "newIds (Enqueue files) = map (\<lambda>(file, now, rnd). batchItemId file now rnd) files"
| "newIds ev = []"

definition freshAt :: "Scheduler \<Rightarrow> Event \<Rightarrow> bool" where
  "freshAt sch ev =
     (distinct (newIds ev)
      \<and> list_all (\<lambda>i. i \<notin> set (map b_id (batchQueue (app sch)))) (newIds ev))"

fun idsFresh :: "Scheduler \<Rightarrow> Event list \<Rightarrow> bool" where
  "idsFresh sch [] = True"
| "idsFresh sch (ev # evs) =
     (freshAt sch ev \<and>
      (case schedulerStep sch ev of Inl e \<Rightarrow> True | Inr sch' \<Rightarrow> idsFresh sch' evs))"

section \<open>Notions used by the statements and the proofs\<close>

text \<open>The condition of each \<^verbatim>\<open>if\<close> of \<^verbatim>\<open>buildPrompt\<close> that guards a push.\<close>

fun contributes :: "ToolStates \<Rightarrow> ToolGroup \<Rightarrow> bool" where
  "contributes t GSuperResolution = sr_enabled (superResolution t)"
| "contributes t GColorTone = ct_enabled (colorTone t)"
| "contributes t GFacialRetouch = fr_enabled (facialRetouch t)"
| "contributes t GPreserveDetails = pd_enabled (preserveDetails t)"
| "contributes t GHairStyling =
     (hs_enabled (hairStyling t) \<and> hs_mode (hairStyling t) \<noteq> HairKeep)"
| "contributes t GBackground = bg_enabled (background t)"
| "contributes t GCrop = cr_enabled (crop t)"
| "contributes t GDistractions =
     (ds_enabled (distractions t) \<and> trim (ds_list (distractions t)) \<noteq> [])"
| "contributes t GNoiseAndOptics =
     (no_enabled (noiseAndOptics t) \<and> length (corrections (noiseAndOptics t)) > 0)"

text \<open>The settings with the distraction list replaced by its trimmed text.\<close>

definition trimmedList :: "ToolStates \<Rightarrow> ToolStates" where
  "trimmedList t =
     t\<lparr> distractions := (distractions t)\<lparr> ds_list := trim (ds_list (distractions t)) \<rparr> \<rparr>"

text \<open>
  The history. A record operation is an action that appends a snapshot: \<^verbatim>\<open>UPDATE_TOOL\<close>
  and \<^verbatim>\<open>LOAD_PRESET\<close>. A state is coherent when its index addresses an entry that holds
  the live tools; it is at the end when that entry is the last one. \<open>jump s i\<close> is the
  state \<^verbatim>\<open>UNDO\<close> and \<^verbatim>\<open>REDO\<close> return when they move to index \<open>i\<close>.
\<close>

fun isRecord :: "Action \<Rightarrow> bool" where
  "isRecord (UPDATE_TOOL settings) = True"
| "isRecord (LOAD_PRESET ts) = True"
| "isRecord a = False"

definition coherent :: "AppState \<Rightarrow> bool" where
  "coherent s =
     (historyIndex s < length (history s) \<and> tools s = h_tools (history s ! historyIndex s))"

definition atEnd :: "AppState \<Rightarrow> bool" where
  "atEnd s =
     (historyIndex s + 1 = length (history s) \<and> tools s = h_tools (history s ! historyIndex s))"

definition jump :: "AppState \<Rightarrow> nat \<Rightarrow> AppState" where
  "jump s i = s\<lparr> historyIndex := i, tools := h_tools (history s ! i) \<rparr>"

text \<open>The queue: the three maps the reducer applies to it, and the scheduler invariant.\<close>

definition processingIn :: "BatchItem list \<Rightarrow> nat" where
  "processingIn q = length (filter (\<lambda>i. b_status i = Processing) q)"

definition applyUpdate :: "BatchItemUpdate \<Rightarrow> BatchItem list \<Rightarrow> BatchItem list" where
  "applyUpdate p q =
     map (\<lambda>item. if b_id item = u_id p then mergeBatchItem item p else item) q"

definition admitAll :: "string set \<Rightarrow> BatchItem list \<Rightarrow> BatchItem list" where
  "admitAll A q =
     map (\<lambda>item. if b_id item \<in> A then item\<lparr> b_status := Processing \<rparr> else item) q"

definition presetAll :: "ToolStates \<Rightarrow> BatchItem list \<Rightarrow> BatchItem list" where
  "presetAll ts q =
     map (\<lambda>item. if b_status item = Pending then item\<lparr> b_preset := Some ts \<rparr> else item) q"

definition failItem :: "string \<Rightarrow> string \<Rightarrow> BatchItem \<Rightarrow> BatchItem" where
  "failItem i msg x = (if b_id x = i then x\<lparr> b_status := Error, b_error := Some msg \<rparr> else x)"

text \<open>
  The scheduler invariant: the ids of the queue are distinct, the processing items are
  within the cap, and they stay within it when the effect that is still to run admits
  what its render allows.
\<close>

definition schedInv :: "Scheduler \<Rightarrow> bool" where
  "schedInv sch =
     (distinct (map b_id (batchQueue (app sch)))
      \<and> processingCount (app sch) \<le> BATCH_CONCURRENCY
      \<and> (effectPending sch \<longrightarrow>
           processingCount (app sch) + length (itemsToProcess (rendered sch))
             \<le> BATCH_CONCURRENCY))"

definition processingView :: "ReducerError + AppState \<Rightarrow> nat option" where
  "processingView r = (case r of Inl e \<Rightarrow> None | Inr s \<Rightarrow> Some (processingCount s))"

text \<open>What a run shows of the queue (id, status, result, error of every item) and of the toast.\<close>

definition queueView ::
  "ReducerError + AppState \<Rightarrow> (string \<times> Status \<times> string option \<times> string option) list option" where
  "queueView r =
     (case r of
        Inl e \<Rightarrow> None
      | Inr s \<Rightarrow> Some (map (\<lambda>i. (b_id i, b_status i, b_result i, b_error i)) (batchQueue s)))"

definition toastView :: "ReducerError + AppState \<Rightarrow> (string \<times> ToastType) option" where
  "toastView r =
     (case r of
        Inl e \<Rightarrow> None
      | Inr s \<Rightarrow> (case toast s of None \<Rightarrow> None | Some t \<Rightarrow> Some (t_message t, t_type t)))"

section \<open>Concrete inputs\<close>

definition demoFile :: ImageFile where
  "demoFile = \<lparr> f_name = ''a.png'', f_type = ''image/png'', f_data = ''data:image/png;base64,AAAA'' \<rparr>"

definition demoFileB :: ImageFile where
  "demoFileB = \<lparr> f_name = ''b.png'', f_type = ''image/png'', f_data = ''data:image/png;base64,BBBB'' \<rparr>"

definition demoFileC :: ImageFile where
  "demoFileC = \<lparr> f_name = ''c.png'', f_type = ''image/png'', f_data = ''data:image/png;base64,CCCC'' \<rparr>"

definition demoBrowserFile :: File where
  "demoBrowserFile = \<lparr> file_name = ''a.png'', file_type = ''image/png'', file_size = 1024,
     file_dataURL = ''data:image/png;base64,AAAA'' \<rparr>"

definition demoStamp :: "nat \<Rightarrow> nat \<times> string" where
  "demoStamp k = (1, ''0.5'')"

definition demoItem :: BatchItem where
  "demoItem = newBatchItem initialToolStates (demoFile, 1, ''0.5'')"

definition demoItemB :: BatchItem where
  "demoItemB = newBatchItem initialToolStates (demoFileB, 1, ''0.25'')"

definition demoResult :: EnhanceResult where
  "demoResult = \<lparr> e_image = ''data:image/png;base64,ZZZZ'', e_prompt = ''p'' \<rparr>"

definition demoQueueState :: AppState where
  "demoQueueState = initialState\<lparr> batchQueue := [demoItem] \<rparr>"

definition demoEvents :: "Event list" where
  "demoEvents =
     [Enqueue [(demoFile, 1, ''0.5''), (demoFileB, 1, ''0.25''), (demoFileC, 2, ''0.75'')],
      Tick, Settled demoItem (Inr demoResult), Render, Cancel ''c.png-2-0.75'', RunEffect]"

definition repeatedIdEvents :: "Event list" where
  "repeatedIdEvents =
     [Enqueue [(demoFile, 1, ''0.5''), (demoFile, 1, ''0.5''), (demoFile, 1, ''0.5'')], Tick]"

definition demoRecords :: "Action list" where
  "demoRecords = [UPDATE_TOOL (CropSettings [Set_cr_enabled True]), LOAD_PRESET initialToolStates]"

definition croppedTools :: ToolStates where
  "croppedTools = mergeTool initialToolStates (CropSettings [Set_cr_enabled True])"

definition editedState :: AppState where
  "editedState =
     initialState\<lparr> history := [\<lparr> h_tools = initialToolStates \<rparr>, \<lparr> h_tools = croppedTools \<rparr>],
       historyIndex := 1, tools := croppedTools \<rparr>"

definition negativeLumaTools :: ToolStates where
  "negativeLumaTools =
     initialToolStates\<lparr> noiseAndOptics := \<lparr> no_enabled = True, no_lumaNoise = - 1,
       no_chromaNoise = 0, no_caFix = 0, no_vignette = 0, no_distortion = 0 \<rparr> \<rparr>"

definition vignetteTools :: ToolStates where
  "vignetteTools =
     initialToolStates\<lparr> noiseAndOptics := \<lparr> no_enabled = True, no_lumaNoise = 0,
       no_chromaNoise = 0, no_caFix = 0, no_vignette = - 3, no_distortion = 0 \<rparr> \<rparr>"

text \<open>The tools of the built-in preset \<^verbatim>\<open>Studio Neutral\<close>.\<close>

definition studioTools :: ToolStates where
  "studioTools =
     initialToolStates\<lparr> background := \<lparr> bg_enabled = True, bg_mode = BgSolid,
       bg_solidColor = ''#e0e0e0'', bg_customInstruction = [] \<rparr> \<rparr>"

definition freeTextTools :: ToolStates where
  "freeTextTools = initialToolStates\<lparr>
     hairStyling := \<lparr> hs_enabled = True, hs_mode = HairCustom, hs_color = ''#5C3D2E'',
       hs_customInstruction = ''  '' \<rparr>,
     background := \<lparr> bg_enabled = True, bg_mode = BgCustom, bg_solidColor = ''#ffffff'',
       bg_customInstruction = [] \<rparr>,
     distractions := \<lparr> ds_enabled = True, ds_list = ''  lint  '' \<rparr> \<rparr>"

definition blankHairTools :: ToolStates where
  "blankHairTools = initialToolStates\<lparr>
     hairStyling := \<lparr> hs_enabled = True, hs_mode = HairCustom, hs_color = ''#5C3D2E'',
       hs_customInstruction = ''  '' \<rparr> \<rparr>"

definition emptyListTools :: ToolStates where
  "emptyListTools = initialToolStates\<lparr> distractions := \<lparr> ds_enabled = True, ds_list = [] \<rparr> \<rparr>"

section \<open>The prompt compiler: which clauses, in which order\<close>

lemmas label_defs =
  label_superResolution_def label_colorTone_def label_facialRetouch_def
  label_preserveDetails_def label_hairStyling_def label_background_def label_crop_def
  label_distractions_def label_noiseAndOptics_def

text \<open>No label is the start of another one, so a clause names its group.\<close>

lemma clauseGroup_label: "clauseGroup (label g @ r) = Some g"
  by (cases g) (simp_all add: clauseGroup_def canonicalOrder_def label_defs)

lemma clauseGroup_superResolutionOp: "clauseGroup (superResolutionOp t) = Some GSuperResolution"
  unfolding superResolutionOp_def using clauseGroup_label[of GSuperResolution] by simp

lemma clauseGroup_colorToneOp: "clauseGroup (colorToneOp t) = Some GColorTone"
  unfolding colorToneOp_def using clauseGroup_label[of GColorTone] by simp

lemma clauseGroup_facialRetouchOp: "clauseGroup (facialRetouchOp t) = Some GFacialRetouch"
  unfolding facialRetouchOp_def using clauseGroup_label[of GFacialRetouch] by simp

lemma clauseGroup_preserveDetailsOp: "clauseGroup (preserveDetailsOp t) = Some GPreserveDetails"
  unfolding preserveDetailsOp_def using clauseGroup_label[of GPreserveDetails] by simp

lemma clauseGroup_hairStylingOp: "clauseGroup (hairStylingOp t) = Some GHairStyling"
  unfolding hairStylingOp_def using clauseGroup_label[of GHairStyling] by simp

lemma clauseGroup_backgroundOp: "clauseGroup (backgroundOp t) = Some GBackground"
  unfolding backgroundOp_def using clauseGroup_label[of GBackground] by simp

lemma clauseGroup_cropOp: "clauseGroup (cropOp t) = Some GCrop"
  unfolding cropOp_def using clauseGroup_label[of GCrop] by simp

lemma clauseGroup_distractionsOp: "clauseGroup (distractionsOp t) = Some GDistractions"
  unfolding distractionsOp_def using clauseGroup_label[of GDistractions] by simp

lemma clauseGroup_noiseAndOpticsOp: "clauseGroup (noiseAndOpticsOp t) = Some GNoiseAndOptics"
  unfolding noiseAndOpticsOp_def using clauseGroup_label[of GNoiseAndOptics] by simp

lemmas clauseGroup_ops =
  clauseGroup_superResolutionOp clauseGroup_colorToneOp clauseGroup_facialRetouchOp
  clauseGroup_preserveDetailsOp clauseGroup_hairStylingOp clauseGroup_backgroundOp
  clauseGroup_cropOp clauseGroup_distractionsOp clauseGroup_noiseAndOpticsOp

text \<open>The groups of the compiled clauses are the contributing groups, in canonical order.\<close>

lemma ops_groups:
  "map clauseGroup (buildPrompt_ops t) = map Some (filter (contributes t) canonicalOrder)"
  by (simp add: buildPrompt_ops_def canonicalOrder_def clauseGroup_ops)

lemma hasClause_iff: "hasClause g (buildPrompt_ops t) = contributes t g"
proof -
  have "g \<in> set canonicalOrder" by (cases g) (simp_all add: canonicalOrder_def)
  then show ?thesis unfolding hasClause_def ops_groups by auto
qed

lemma corrections_nonempty:
  "(length (corrections n) > 0) =
     (no_lumaNoise n > 0 \<or> no_chromaNoise n > 0 \<or> no_caFix n > 0
      \<or> no_vignette n \<noteq> 0 \<or> no_distortion n \<noteq> 0)"
  by (auto simp: corrections_def)

lemma op_members:
  "hs_enabled (hairStyling t) \<and> hs_mode (hairStyling t) \<noteq> HairKeep
     \<Longrightarrow> hairStylingOp t \<in> set (buildPrompt_ops t)"
  "bg_enabled (background t) \<Longrightarrow> backgroundOp t \<in> set (buildPrompt_ops t)"
  "ds_enabled (distractions t) \<and> trim (ds_list (distractions t)) \<noteq> []
     \<Longrightarrow> distractionsOp t \<in> set (buildPrompt_ops t)"
  by (simp_all add: buildPrompt_ops_def)


text \<open>
  Claim C9, as stated, fails: with noise and optics enabled and a luma noise of \<open>-1\<close>, a
  parameter is nonzero and there is no noise/optics clause.
\<close>

theorem negative_luma_no_clause:
  "no_enabled (noiseAndOptics negativeLumaTools)
   \<and> no_lumaNoise (noiseAndOptics negativeLumaTools) \<noteq> 0
   \<and> \<not> hasClause GNoiseAndOptics (buildPrompt_ops negativeLumaTools)"
  by (simp add: hasClause_iff corrections_def negativeLumaTools_def)

text \<open>
  Claim C9, amended. The noise/optics clause is in the compiled prompt if and only if
  noiseAndOptics is enabled and lumaNoise, chromaNoise or caFix is greater than zero, or
  vignette or distortion is not zero. In particular there is no clause when the group is
  enabled and all five parameters are zero.
\<close>

theorem noise_clause_iff:
  "hasClause GNoiseAndOptics (buildPrompt_ops t) \<longleftrightarrow>
     (no_enabled (noiseAndOptics t) \<and>
       (no_lumaNoise (noiseAndOptics t) > 0 \<or> no_chromaNoise (noiseAndOptics t) > 0
        \<or> no_caFix (noiseAndOptics t) > 0 \<or> no_vignette (noiseAndOptics t) \<noteq> 0
        \<or> no_distortion (noiseAndOptics t) \<noteq> 0))"
  unfolding hasClause_iff contributes.simps corrections_nonempty by (rule refl)

theorem noise_clause_iff_witness:
  "no_vignette (noiseAndOptics vignetteTools) \<noteq> 0
   \<and> hasClause GNoiseAndOptics (buildPrompt_ops vignetteTools)"
  using noise_clause_iff[of vignetteTools] by (simp add: vignetteTools_def)

text \<open>
  Claim C3, as stated, fails: with distractions enabled and an empty list, the group has
  no no-op mode, its flag is true, and there is no object-removal clause.
\<close>

theorem enabled_distractions_without_clause:
  "ds_enabled (distractions emptyListTools)
   \<and> \<not> hasClause GDistractions (buildPrompt_ops emptyListTools)"
  by (simp add: hasClause_iff emptyListTools_def trim_def)

text \<open>
  Claim C3, amended. Super resolution, color/exposure, facial retouch, preserve details
  and crop have a clause if and only if they are enabled; hair styling if and only if it is
  enabled and its mode is not keep; distraction removal if and only if it is enabled and
  its trimmed list is not empty; noise/optics if and only if it is enabled and at least one
  correction qualifies. Background has no clause when it is disabled and has one when it
  is enabled with a mode other than keep.
\<close>

theorem clause_presence:
  "(hasClause GSuperResolution (buildPrompt_ops t) \<longleftrightarrow> sr_enabled (superResolution t))
   \<and> (hasClause GColorTone (buildPrompt_ops t) \<longleftrightarrow> ct_enabled (colorTone t))
   \<and> (hasClause GFacialRetouch (buildPrompt_ops t) \<longleftrightarrow> fr_enabled (facialRetouch t))
   \<and> (hasClause GPreserveDetails (buildPrompt_ops t) \<longleftrightarrow> pd_enabled (preserveDetails t))
   \<and> (hasClause GHairStyling (buildPrompt_ops t)
        \<longleftrightarrow> hs_enabled (hairStyling t) \<and> hs_mode (hairStyling t) \<noteq> HairKeep)
   \<and> (hasClause GCrop (buildPrompt_ops t) \<longleftrightarrow> cr_enabled (crop t))
   \<and> (hasClause GDistractions (buildPrompt_ops t)
        \<longleftrightarrow> ds_enabled (distractions t) \<and> trim (ds_list (distractions t)) \<noteq> [])
   \<and> (hasClause GNoiseAndOptics (buildPrompt_ops t)
        \<longleftrightarrow> no_enabled (noiseAndOptics t) \<and> corrections (noiseAndOptics t) \<noteq> [])
   \<and> (hasClause GBackground (buildPrompt_ops t) \<longrightarrow> bg_enabled (background t))
   \<and> (bg_enabled (background t) \<and> bg_mode (background t) \<noteq> BgKeep
        \<longrightarrow> hasClause GBackground (buildPrompt_ops t))"
  by (simp add: hasClause_iff)

theorem clause_presence_witness:
  "bg_enabled (background studioTools) \<and> bg_mode (background studioTools) \<noteq> BgKeep
   \<and> hasClause GBackground (buildPrompt_ops studioTools)"
  using clause_presence[of studioTools] by (simp add: studioTools_def)

section \<open>The prompt compiler: free text\<close>

lemma trim_idem: "trim (trim s) = trim s"
proof -
  define u where "u = dropWhile isWhiteSpace s"
  define v where "v = rev (dropWhile isWhiteSpace (rev u))"
  have tv: "trim s = v" by (simp add: trim_def u_def v_def)
  have "u = rev (takeWhile isWhiteSpace (rev u) @ dropWhile isWhiteSpace (rev u))"
    by (simp only: takeWhile_dropWhile_id rev_rev_ident)
  also have "\<dots> = rev (dropWhile isWhiteSpace (rev u)) @ rev (takeWhile isWhiteSpace (rev u))"
    by (rule rev_append)
  finally have "u = v @ rev (takeWhile isWhiteSpace (rev u))" unfolding v_def .
  then obtain w where uv: "u = v @ w" ..
  have keep: "dropWhile isWhiteSpace v = v"
  proof (cases v)
    case Nil
    then show ?thesis by simp
  next
    case (Cons x xs)
    with uv have "u \<noteq> []" and "hd u = x" by auto
    moreover from \<open>u \<noteq> []\<close> have "\<not> isWhiteSpace (hd u)"
      unfolding u_def by (rule hd_dropWhile)
    ultimately show ?thesis using Cons by simp
  qed
  have "trim v = rev (dropWhile isWhiteSpace (rev v))" by (simp add: trim_def keep)
  also have "\<dots> = v" by (simp add: v_def)
  finally show ?thesis by (simp add: tv)
qed

lemma trimmedList_ops: "buildPrompt_ops (trimmedList t) = buildPrompt_ops t"
proof -
  have 1: "superResolutionOp (trimmedList t) = superResolutionOp t"
    by (simp add: superResolutionOp_def trimmedList_def)
  have 2: "colorToneOp (trimmedList t) = colorToneOp t"
    by (simp add: colorToneOp_def trimmedList_def)
  have 3: "facialRetouchOp (trimmedList t) = facialRetouchOp t"
    by (simp add: facialRetouchOp_def trimmedList_def)
  have 4: "preserveDetailsOp (trimmedList t) = preserveDetailsOp t"
    by (simp add: preserveDetailsOp_def trimmedList_def)
  have 5: "hairStylingOp (trimmedList t) = hairStylingOp t"
    by (simp add: hairStylingOp_def trimmedList_def)
  have 6: "backgroundOp (trimmedList t) = backgroundOp t"
    by (simp add: backgroundOp_def trimmedList_def)
  have 7: "cropOp (trimmedList t) = cropOp t"
    by (simp add: cropOp_def trimmedList_def)
  have 8: "distractionsOp (trimmedList t) = distractionsOp t"
    by (simp add: distractionsOp_def trimmedList_def trim_idem)
  have 9: "noiseAndOpticsOp (trimmedList t) = noiseAndOpticsOp t"
    by (simp add: noiseAndOpticsOp_def trimmedList_def)
  have g: "superResolution (trimmedList t) = superResolution t"
    "colorTone (trimmedList t) = colorTone t"
    "facialRetouch (trimmedList t) = facialRetouch t"
    "preserveDetails (trimmedList t) = preserveDetails t"
    "hairStyling (trimmedList t) = hairStyling t"
    "background (trimmedList t) = background t"
    "crop (trimmedList t) = crop t"
    "noiseAndOptics (trimmedList t) = noiseAndOptics t"
    "ds_enabled (distractions (trimmedList t)) = ds_enabled (distractions t)"
    "trim (ds_list (distractions (trimmedList t))) = trim (ds_list (distractions t))"
    by (simp_all add: trimmedList_def trim_idem)
  show ?thesis unfolding buildPrompt_ops_def 1 2 3 4 5 6 7 8 9 g by (rule refl)
qed

lemma hair_custom_text:
  \<open>hs_mode (hairStyling t) = HairCustom \<Longrightarrow>
   hairStylingOp t =
     label_hairStyling @ ''mode: custom, instruction: "'' @ hs_customInstruction (hairStyling t)
     @ ''"; maintain realistic texture/shine; precise masking; no color bleed.''\<close>
  by (simp add: hairStylingOp_def hairText_def)

lemma bg_custom_text:
  \<open>bg_mode (background t) = BgCustom \<Longrightarrow>
   backgroundOp t =
     label_background @ ''mode: custom, instruction: "'' @ bg_customInstruction (background t)
     @ ''"; hair-safe matting; realistic shadows; no halos/spill.''\<close>
  by (simp add: backgroundOp_def bgText_def)

text \<open>
  Claim C2, as stated, fails: with hair styling enabled in custom mode and an instruction
  of two spaces, the trimmed instruction is empty, and the hair clause is in the compiled
  list with the two spaces between its quotes.
\<close>

theorem blank_custom_instruction_keeps_clause:
  \<open>hs_enabled (hairStyling blankHairTools)
   \<and> trim (hs_customInstruction (hairStyling blankHairTools)) = []
   \<and> hasClause GHairStyling (buildPrompt_ops blankHairTools)
   \<and> hairStylingOp blankHairTools \<in> set (buildPrompt_ops blankHairTools)
   \<and> hairStylingOp blankHairTools =
       ''HAIR STYLING: mode: custom, instruction: "  "; maintain realistic texture/shine; precise masking; no color bleed.''\<close>
proof (intro conjI)
  show "hs_enabled (hairStyling blankHairTools)" by (simp add: blankHairTools_def)
  show "trim (hs_customInstruction (hairStyling blankHairTools)) = []"
    by (simp add: blankHairTools_def trim_def isWhiteSpace_def)
  show "hasClause GHairStyling (buildPrompt_ops blankHairTools)"
    by (simp add: hasClause_iff blankHairTools_def)
  show "hairStylingOp blankHairTools \<in> set (buildPrompt_ops blankHairTools)"
    by (rule op_members(1)) (simp add: blankHairTools_def)
  show \<open>hairStylingOp blankHairTools =
       ''HAIR STYLING: mode: custom, instruction: "  "; maintain realistic texture/shine; precise masking; no color bleed.''\<close>
    by (simp add: hairStylingOp_def hairText_def label_hairStyling_def blankHairTools_def)
qed

text \<open>
  Claim C2, amended. The distraction list is trimmed before it is embedded: replacing the
  list by its trimmed text leaves the compiled prompt unchanged, the object-removal clause
  is present if and only if the group is enabled and the trimmed list is not empty, and
  the clause then holds the trimmed list between its quotes. The custom instructions of
  hair styling and of background are embedded as they are, between quotes, and their
  clause is present whenever the group is enabled in custom mode, whatever the
  instruction.
\<close>

theorem free_text_embedding:
  \<open>buildPrompt (t\<lparr> distractions := (distractions t)\<lparr> ds_list := trim (ds_list (distractions t)) \<rparr> \<rparr>)
     = buildPrompt t
   \<and> (hasClause GDistractions (buildPrompt_ops t)
        \<longleftrightarrow> ds_enabled (distractions t) \<and> trim (ds_list (distractions t)) \<noteq> [])
   \<and> (ds_enabled (distractions t) \<and> trim (ds_list (distractions t)) \<noteq> [] \<longrightarrow>
        label_distractions @ ''Carefully and seamlessly remove the following distractions: "''
          @ trim (ds_list (distractions t))
          @ ''". Fill the area with realistic, context-aware content. The edit must be undetectable.''
        \<in> set (buildPrompt_ops t))
   \<and> (hs_enabled (hairStyling t) \<and> hs_mode (hairStyling t) = HairCustom \<longrightarrow>
        label_hairStyling @ ''mode: custom, instruction: "'' @ hs_customInstruction (hairStyling t)
          @ ''"; maintain realistic texture/shine; precise masking; no color bleed.''
        \<in> set (buildPrompt_ops t))
   \<and> (bg_enabled (background t) \<and> bg_mode (background t) = BgCustom \<longrightarrow>
        label_background @ ''mode: custom, instruction: "'' @ bg_customInstruction (background t)
          @ ''"; hair-safe matting; realistic shadows; no halos/spill.''
        \<in> set (buildPrompt_ops t))\<close>
proof (intro conjI impI)
  show "buildPrompt (t\<lparr> distractions := (distractions t)\<lparr> ds_list := trim (ds_list (distractions t)) \<rparr> \<rparr>)
     = buildPrompt t"
    using trimmedList_ops[of t] by (simp add: buildPrompt_def trimmedList_def)
  show "hasClause GDistractions (buildPrompt_ops t)
        \<longleftrightarrow> ds_enabled (distractions t) \<and> trim (ds_list (distractions t)) \<noteq> []"
    by (simp add: hasClause_iff)
next
  assume a: "ds_enabled (distractions t) \<and> trim (ds_list (distractions t)) \<noteq> []"
  from op_members(3)[OF a]
  show \<open>label_distractions @ ''Carefully and seamlessly remove the following distractions: "''
          @ trim (ds_list (distractions t))
          @ ''". Fill the area with realistic, context-aware content. The edit must be undetectable.''
        \<in> set (buildPrompt_ops t)\<close>
    by (simp add: distractionsOp_def)
next
  assume a: "hs_enabled (hairStyling t) \<and> hs_mode (hairStyling t) = HairCustom"
  then have "hs_enabled (hairStyling t) \<and> hs_mode (hairStyling t) \<noteq> HairKeep" by simp
  from op_members(1)[OF this] hair_custom_text[of t] a
  show \<open>label_hairStyling @ ''mode: custom, instruction: "'' @ hs_customInstruction (hairStyling t)
          @ ''"; maintain realistic texture/shine; precise masking; no color bleed.''
        \<in> set (buildPrompt_ops t)\<close>
    by simp
next
  assume a: "bg_enabled (background t) \<and> bg_mode (background t) = BgCustom"
  then have "bg_enabled (background t)" by simp
  from op_members(2)[OF this] bg_custom_text[of t] a
  show \<open>label_background @ ''mode: custom, instruction: "'' @ bg_customInstruction (background t)
          @ ''"; hair-safe matting; realistic shadows; no halos/spill.''
        \<in> set (buildPrompt_ops t)\<close>
    by simp
qed

theorem free_text_embedding_witness:
  \<open>(ds_enabled (distractions freeTextTools) \<and> trim (ds_list (distractions freeTextTools)) \<noteq> [])
   \<and> (hs_enabled (hairStyling freeTextTools) \<and> hs_mode (hairStyling freeTextTools) = HairCustom)
   \<and> (bg_enabled (background freeTextTools) \<and> bg_mode (background freeTextTools) = BgCustom)
   \<and> hasClause GDistractions (buildPrompt_ops freeTextTools)
   \<and> label_hairStyling @ ''mode: custom, instruction: "''
          @ hs_customInstruction (hairStyling freeTextTools)
          @ ''"; maintain realistic texture/shine; precise masking; no color bleed.''
        \<in> set (buildPrompt_ops freeTextTools)
   \<and> label_background @ ''mode: custom, instruction: "''
          @ bg_customInstruction (background freeTextTools)
          @ ''"; hair-safe matting; realistic shadows; no halos/spill.''
        \<in> set (buildPrompt_ops freeTextTools)\<close>
proof -
  have h1: "ds_enabled (distractions freeTextTools) \<and> trim (ds_list (distractions freeTextTools)) \<noteq> []"
    by (simp add: freeTextTools_def trim_def isWhiteSpace_def)
  have h2: "hs_enabled (hairStyling freeTextTools) \<and> hs_mode (hairStyling freeTextTools) = HairCustom"
    by (simp add: freeTextTools_def)
  have h3: "bg_enabled (background freeTextTools) \<and> bg_mode (background freeTextTools) = BgCustom"
    by (simp add: freeTextTools_def)
  note c = free_text_embedding[of freeTextTools]
  from h1 have c1: "hasClause GDistractions (buildPrompt_ops freeTextTools)"
    by (rule iffD2[OF c[THEN conjunct2, THEN conjunct1]])
  from h2 have c2: \<open>label_hairStyling @ ''mode: custom, instruction: "''
          @ hs_customInstruction (hairStyling freeTextTools)
          @ ''"; maintain realistic texture/shine; precise masking; no color bleed.''
        \<in> set (buildPrompt_ops freeTextTools)\<close>
    by (rule c[THEN conjunct2, THEN conjunct2, THEN conjunct2, THEN conjunct1, THEN mp])
  from h3 have c3: \<open>label_background @ ''mode: custom, instruction: "''
          @ bg_customInstruction (background freeTextTools)
          @ ''"; hair-safe matting; realistic shadows; no halos/spill.''
        \<in> set (buildPrompt_ops freeTextTools)\<close>
    by (rule c[THEN conjunct2, THEN conjunct2, THEN conjunct2, THEN conjunct2, THEN mp])
  show ?thesis
    by (rule conjI[OF h1 conjI[OF h2 conjI[OF h3 conjI[OF c1 conjI[OF c2 c3]]]]])
qed

section \<open>The undo/redo history\<close>

lemma dispatchAll_append:
  "dispatchAll s (xs @ ys) =
     (case dispatchAll s xs of Inl e \<Rightarrow> Inl e | Inr s' \<Rightarrow> dispatchAll s' ys)"
  by (induction xs arbitrary: s) (auto split: sum.splits)

text \<open>A record operation never throws and leaves the index on the last entry.\<close>

lemma record_atEnd: "isRecord a \<Longrightarrow> \<exists>s'. appReducer s a = Inr s' \<and> atEnd s'"
  by (cases a) (simp_all add: atEnd_def Let_def nth_append)

lemma records_atEnd:
  "list_all isRecord rs \<Longrightarrow> rs \<noteq> [] \<Longrightarrow> \<exists>s'. dispatchAll s rs = Inr s' \<and> atEnd s'"
proof (induction rs arbitrary: s)
  case Nil
  then show ?case by simp
next
  case (Cons a rs)
  from Cons.prems obtain s1 where s1: "appReducer s a = Inr s1" "atEnd s1"
    using record_atEnd[of a s] by auto
  show ?case
  proof (cases "rs = []")
    case True
    with s1 show ?thesis by simp
  next
    case False
    with Cons.prems Cons.IH[of s1] s1 show ?thesis by simp
  qed
qed

lemma jump_simps:
  "historyIndex (jump s i) = i"
  "history (jump s i) = history s"
  "jump (jump s i) j = jump s j"
  by (simp_all add: jump_def)

lemma coherent_jump: "i < length (history s) \<Longrightarrow> coherent (jump s i)"
  by (simp add: coherent_def jump_def)

lemma jump_self: "coherent s \<Longrightarrow> jump s (historyIndex s) = s"
  by (simp add: coherent_def jump_def)

lemma undo_step: "coherent s \<Longrightarrow> appReducer s UNDO = Inr (jump s (historyIndex s - 1))"
proof (cases "historyIndex s")
  case 0
  assume "coherent s"
  from jump_self[OF this] 0 show ?thesis by simp
next
  case (Suc n)
  assume "coherent s"
  with Suc have "n < length (history s)" by (simp add: coherent_def)
  with Suc show ?thesis by (simp add: jump_def)
qed

lemma redo_step:
  "coherent s \<Longrightarrow>
   appReducer s REDO = Inr (jump s (min (historyIndex s + 1) (length (history s) - 1)))"
proof (cases "int (historyIndex s) < int (length (history s)) - 1")
  case True
  then have lt: "historyIndex s + 1 < length (history s)" by linarith
  then have "min (historyIndex s + 1) (length (history s) - 1) = historyIndex s + 1"
    by linarith
  then show ?thesis using True lt by (simp add: jump_def)
next
  case False
  assume c: "coherent s"
  with False have "min (historyIndex s + 1) (length (history s) - 1) = historyIndex s"
    unfolding coherent_def by linarith
  then show ?thesis using False jump_self[OF c] by simp
qed

lemma undos:
  "coherent s \<Longrightarrow> dispatchAll s (replicate k UNDO) = Inr (jump s (historyIndex s - k))"
proof (induction k arbitrary: s)
  case 0
  then show ?case by (simp add: jump_self)
next
  case (Suc k)
  let ?s1 = "jump s (historyIndex s - 1)"
  from Suc.prems have "historyIndex s - 1 < length (history s)"
    unfolding coherent_def by linarith
  then have c1: "coherent ?s1" by (rule coherent_jump)
  have e: "historyIndex s - 1 - k = historyIndex s - Suc k" by linarith
  have "dispatchAll s (replicate (Suc k) UNDO) = dispatchAll ?s1 (replicate k UNDO)"
    using undo_step[OF Suc.prems] by simp
  also have "\<dots> = Inr (jump ?s1 (historyIndex ?s1 - k))" by (rule Suc.IH[OF c1])
  also have "\<dots> = Inr (jump s (historyIndex s - Suc k))"
    unfolding jump_simps e by (rule refl)
  finally show ?case .
qed

lemma redos:
  "coherent s \<Longrightarrow>
   dispatchAll s (replicate k REDO) =
     Inr (jump s (min (historyIndex s + k) (length (history s) - 1)))"
proof (induction k arbitrary: s)
  case 0
  then have "min (historyIndex s + 0) (length (history s) - 1) = historyIndex s"
    unfolding coherent_def by linarith
  then show ?case using jump_self[OF 0] by simp
next
  case (Suc k)
  let ?i = "min (historyIndex s + 1) (length (history s) - 1)"
  let ?s1 = "jump s ?i"
  from Suc.prems have "?i < length (history s)"
    unfolding coherent_def by linarith
  then have c1: "coherent ?s1" by (rule coherent_jump)
  have e: "min (?i + k) (length (history s) - 1)
             = min (historyIndex s + Suc k) (length (history s) - 1)"
    by linarith
  have "dispatchAll s (replicate (Suc k) REDO) = dispatchAll ?s1 (replicate k REDO)"
    using redo_step[OF Suc.prems] by simp
  also have "\<dots> = Inr (jump ?s1 (min (historyIndex ?s1 + k) (length (history ?s1) - 1)))"
    by (rule Suc.IH[OF c1])
  also have "\<dots> = Inr (jump s (min (historyIndex s + Suc k) (length (history s) - 1)))"
    unfolding jump_simps e by (rule refl)
  finally show ?case .
qed

text \<open>From the end of the history, any number of undos and as many redos come back.\<close>

lemma undo_redo_atEnd:
  assumes "atEnd s"
  shows "dispatchAll s (replicate k UNDO @ replicate k REDO) = Inr s"
proof -
  have c: "coherent s" using assms by (simp add: atEnd_def coherent_def)
  let ?s1 = "jump s (historyIndex s - k)"
  from c have "historyIndex s - k < length (history s)"
    unfolding coherent_def by linarith
  then have c1: "coherent ?s1" by (rule coherent_jump)
  have m: "min (historyIndex s - k + k) (length (history s) - 1) = historyIndex s"
    using assms unfolding atEnd_def by linarith
  have "dispatchAll s (replicate k UNDO @ replicate k REDO) = dispatchAll ?s1 (replicate k REDO)"
    by (simp add: dispatchAll_append undos[OF c])
  also have "\<dots> = Inr (jump ?s1 (min (historyIndex ?s1 + k) (length (history ?s1) - 1)))"
    by (rule redos[OF c1])
  also have "\<dots> = Inr (jump s (historyIndex s))"
    unfolding jump_simps m by (rule refl)
  also have "\<dots> = Inr s" using jump_self[OF c] by simp
  finally show ?thesis .
qed

text \<open>
  Claim C7. From every state, after \<open>N\<close> record operations (\<^verbatim>\<open>UPDATE_TOOL\<close> or
  \<^verbatim>\<open>LOAD_PRESET\<close>), \<open>k \<le> N\<close> undos and then \<open>k\<close> redos, no call has thrown and the state,
  with its live tools and the entry its index addresses, is the one that held just
  before the undos.
\<close>

theorem undo_redo_round_trip:
  assumes "list_all isRecord rs" and "k \<le> length rs"
  shows "\<exists>s1 s2. dispatchAll s rs = Inr s1
           \<and> dispatchAll s (rs @ replicate k UNDO @ replicate k REDO) = Inr s2
           \<and> tools s2 = tools s1 \<and> current s2 = current s1 \<and> s2 = s1"
proof (cases "rs = []")
  case True
  with assms show ?thesis by simp
next
  case False
  with assms obtain s1 where s1: "dispatchAll s rs = Inr s1" "atEnd s1"
    using records_atEnd[of rs s] by auto
  then show ?thesis using undo_redo_atEnd[OF s1(2), of k] by (simp add: dispatchAll_append)
qed

theorem undo_redo_round_trip_witness:
  "list_all isRecord demoRecords \<and> (2::nat) \<le> length demoRecords
   \<and> (\<exists>s1 s2. dispatchAll initialState demoRecords = Inr s1
         \<and> dispatchAll initialState (demoRecords @ replicate 2 UNDO @ replicate 2 REDO) = Inr s2
         \<and> tools s2 = tools s1 \<and> current s2 = current s1 \<and> s2 = s1)"
proof -
  have h1: "list_all isRecord demoRecords" by (simp add: demoRecords_def)
  have h2: "(2::nat) \<le> length demoRecords" by (simp add: demoRecords_def)
  have c: "\<exists>s1 s2. dispatchAll initialState demoRecords = Inr s1
         \<and> dispatchAll initialState (demoRecords @ replicate 2 UNDO @ replicate 2 REDO) = Inr s2
         \<and> tools s2 = tools s1 \<and> current s2 = current s1 \<and> s2 = s1"
    by (rule undo_redo_round_trip[OF h1 h2])
  show ?thesis by (rule conjI[OF h1 conjI[OF h2 c]])
qed

text \<open>
  Claim C8. From every state whose index addresses an entry and is above zero, after an
  undo and the recording of a settings value (\<open>X\<close> by \<^verbatim>\<open>LOAD_PRESET\<close>, or the tools merged
  with \<open>settings\<close> by \<^verbatim>\<open>UPDATE_TOOL\<close>), a redo returns the state unchanged, and the live tools
  and the current entry are the recorded value.
\<close>

theorem record_after_undo_discards_redo:
  assumes "0 < historyIndex s" and "historyIndex s < length (history s)"
  shows "\<exists>s1 s2 s3. appReducer s UNDO = Inr s1
           \<and> appReducer s1 (LOAD_PRESET X) = Inr s2 \<and> appReducer s2 REDO = Inr s2
           \<and> tools s2 = X \<and> current s2 = Some X
           \<and> appReducer s1 (UPDATE_TOOL settings) = Inr s3 \<and> appReducer s3 REDO = Inr s3
           \<and> tools s3 = mergeTool (tools s1) settings
           \<and> current s3 = Some (mergeTool (tools s1) settings)"
  using assms by (simp add: Let_def current_def nth_append)

theorem record_after_undo_discards_redo_witness:
  "0 < historyIndex editedState \<and> historyIndex editedState < length (history editedState)
   \<and> (\<exists>s1 s2 s3. appReducer editedState UNDO = Inr s1
           \<and> appReducer s1 (LOAD_PRESET studioTools) = Inr s2 \<and> appReducer s2 REDO = Inr s2
           \<and> tools s2 = studioTools \<and> current s2 = Some studioTools
           \<and> appReducer s1 (UPDATE_TOOL (CropSettings [Set_cr_enabled False])) = Inr s3
           \<and> appReducer s3 REDO = Inr s3
           \<and> tools s3 = mergeTool (tools s1) (CropSettings [Set_cr_enabled False])
           \<and> current s3 = Some (mergeTool (tools s1) (CropSettings [Set_cr_enabled False])))"
proof -
  have h1: "0 < historyIndex editedState" by (simp add: editedState_def)
  have h2: "historyIndex editedState < length (history editedState)"
    by (simp add: editedState_def)
  have c: "\<exists>s1 s2 s3. appReducer editedState UNDO = Inr s1
           \<and> appReducer s1 (LOAD_PRESET studioTools) = Inr s2 \<and> appReducer s2 REDO = Inr s2
           \<and> tools s2 = studioTools \<and> current s2 = Some studioTools
           \<and> appReducer s1 (UPDATE_TOOL (CropSettings [Set_cr_enabled False])) = Inr s3
           \<and> appReducer s3 REDO = Inr s3
           \<and> tools s3 = mergeTool (tools s1) (CropSettings [Set_cr_enabled False])
           \<and> current s3 = Some (mergeTool (tools s1) (CropSettings [Set_cr_enabled False]))"
    by (rule record_after_undo_discards_redo[OF h1 h2])
  show ?thesis by (rule conjI[OF h1 conjI[OF h2 c]])
qed

section \<open>Updates of the batch queue\<close>

lemma reducer_update:
  "appReducer s (UPDATE_BATCH_ITEM p) = Inr (s\<lparr> batchQueue := applyUpdate p (batchQueue s) \<rparr>)"
  by (simp add: applyUpdate_def)

lemma applyUpdate_other: "u_id p \<notin> set (map b_id q) \<Longrightarrow> applyUpdate p q = q"
  unfolding applyUpdate_def by (intro map_idI) (auto simp: image_iff)

text \<open>
  Claim C10. For every state and every \<^verbatim>\<open>UPDATE_BATCH_ITEM\<close> whose id is the id of no item
  of the queue, the reducer does not throw and returns the state it was given, every
  field of it.
\<close>

theorem update_unknown_id_noop:
  assumes "u_id payload \<notin> set (map b_id (batchQueue state))"
  shows "appReducer state (UPDATE_BATCH_ITEM payload) = Inr state"
  unfolding reducer_update applyUpdate_other[OF assms] by simp

theorem update_unknown_id_noop_witness:
  "u_id (asUpdate (finishedItem demoItemB demoResult)) \<notin> set (map b_id (batchQueue demoQueueState))
   \<and> appReducer demoQueueState (UPDATE_BATCH_ITEM (asUpdate (finishedItem demoItemB demoResult)))
       = Inr demoQueueState"
proof -
  have h: "u_id (asUpdate (finishedItem demoItemB demoResult))
             \<notin> set (map b_id (batchQueue demoQueueState))"
    by (simp add: asUpdate_def finishedItem_def demoItemB_def demoItem_def demoQueueState_def
          newBatchItem_def batchItemId_def demoFile_def demoFileB_def)
  show ?thesis by (rule conjI[OF h update_unknown_id_noop[OF h]])
qed

section \<open>The batch scheduler\<close>

lemma applyUpdate_ids: "map b_id (applyUpdate p q) = map b_id q"
  by (induction q) (simp_all add: applyUpdate_def mergeBatchItem_def)

text \<open>Only an update that sets the status to processing can add a processing item.\<close>

lemma applyUpdate_count:
  "u_status p \<noteq> Some Processing \<Longrightarrow> processingIn (applyUpdate p q) \<le> processingIn q"
  by (induction q)
    (auto simp: applyUpdate_def processingIn_def mergeBatchItem_def orElse_def
      split: option.splits)

lemma applyUpdate_error:
  "applyUpdate ((statusUpdate i Error)\<lparr> u_error := Some msg \<rparr>) q = map (failItem i msg) q"
  by (induction q)
    (auto simp: applyUpdate_def mergeBatchItem_def statusUpdate_def orElse_def failItem_def)

text \<open>The dispatches of one run of the effect, taken together.\<close>

lemma admit_dispatch:
  "dispatchAll s (map (\<lambda>item. UPDATE_BATCH_ITEM (statusUpdate (b_id item) Processing)) xs)
     = Inr (s\<lparr> batchQueue := admitAll (set (map b_id xs)) (batchQueue s) \<rparr>)"
proof (induction xs arbitrary: s)
  case Nil
  then show ?case by (simp add: admitAll_def)
next
  case (Cons x xs)
  have "admitAll (set (map b_id xs)) (applyUpdate (statusUpdate (b_id x) Processing) (batchQueue s))
      = admitAll (set (map b_id (x # xs))) (batchQueue s)"
    by (auto simp: admitAll_def applyUpdate_def mergeBatchItem_def statusUpdate_def orElse_def)
  then show ?case using Cons.IH by (simp add: reducer_update del: appReducer.simps)
qed

lemma admitAll_ids: "map b_id (admitAll A q) = map b_id q"
  by (induction q) (simp_all add: admitAll_def)

lemma admitAll_count:
  "processingIn (admitAll A q) \<le> processingIn q + length (filter (\<lambda>item. b_id item \<in> A) q)"
  by (induction q) (auto simp: admitAll_def processingIn_def)

text \<open>With distinct ids, a set of ids names at most as many items as it has elements.\<close>

lemma members_le_card:
  assumes "distinct (map b_id q)" and "finite A"
  shows "length (filter (\<lambda>item. b_id item \<in> A) q) \<le> card A"
proof -
  have d: "distinct (map b_id (filter (\<lambda>item. b_id item \<in> A) q))"
    using assms(1) by (rule distinct_map_filter)
  have "length (filter (\<lambda>item. b_id item \<in> A) q)
          = card (b_id ` set (filter (\<lambda>item. b_id item \<in> A) q))"
    using distinct_card[OF d] by simp
  also have "\<dots> \<le> card A" using assms(2) by (intro card_mono) auto
  finally show ?thesis .
qed

lemma itemsToProcess_length:
  "processingIn q \<le> BATCH_CONCURRENCY
     \<Longrightarrow> processingIn q + length (itemsToProcess q) \<le> BATCH_CONCURRENCY"
  by (auto simp: itemsToProcess_def processingIn_def Let_def)

lemma newItems_ids: "map b_id (map (newBatchItem ts) files) = newIds (Enqueue files)"
  by (induction files) (auto simp: newBatchItem_def)

lemma newItem_status: "b_status (newBatchItem ts x) = Pending"
  by (cases x) (simp add: newBatchItem_def)

lemma newItems_count: "processingIn (q @ map (newBatchItem ts) files) = processingIn q"
  by (induction files) (simp_all add: processingIn_def newItem_status)

lemma reducer_preset:
  "appReducer s (APPLY_PRESET_TO_BATCH ts) = Inr (s\<lparr> batchQueue := presetAll ts (batchQueue s) \<rparr>)"
  by (simp add: presetAll_def)

lemma presetAll_keeps:
  "map b_id (presetAll ts q) = map b_id q"
  "processingIn (presetAll ts q) = processingIn q"
  by (induction q) (auto simp: processingIn_def presetAll_def)

text \<open>
  The events other than the run of the effect: none throws, none adds a processing item,
  all keep the ids distinct.
\<close>

lemma dispatch_no_more_processing:
  assumes "distinct (map b_id (batchQueue (app sch)))" and "freshAt sch ev" and "ev \<noteq> RunEffect"
  shows "\<exists>state'. dispatchAll (app sch) (eventActions sch ev) = Inr state'
           \<and> distinct (map b_id (batchQueue state'))
           \<and> processingCount state' \<le> processingCount (app sch)"
proof (cases ev)
  case (Enqueue files)
  then show ?thesis
    using assms(1,2) newItems_ids[of "tools (app sch)" files]
      newItems_count[of "batchQueue (app sch)" "tools (app sch)" files]
    by (auto simp: freshAt_def processingCount_def processingIn_def list_all_iff
          simp del: newIds.simps)
next
  case (Cancel i)
  have "u_status (statusUpdate i Cancelled) \<noteq> Some Processing" by (simp add: statusUpdate_def)
  from applyUpdate_count[OF this, of "batchQueue (app sch)"] show ?thesis using assms(1) Cancel
    by (auto simp: cancelClick_def reducer_update applyUpdate_ids processingCount_def
          processingIn_def simp del: appReducer.simps)
next
  case Render
  then show ?thesis using assms(1) by simp
next
  case RunEffect
  with assms(3) show ?thesis by simp
next
  case Tick
  then show ?thesis using assms(1) by simp
next
  case (Settled item outcome)
  show ?thesis
  proof (cases outcome)
    case (Inl err)
    have "u_status ((statusUpdate (b_id item) Error)\<lparr> u_error := Some (thrownMessage err) \<rparr>)
            \<noteq> Some Processing"
      by (simp add: statusUpdate_def)
    from applyUpdate_count[OF this, of "batchQueue (app sch)"] show ?thesis
      using assms(1) Settled Inl
      by (simp add: onSettled_def reducer_update applyUpdate_ids processingCount_def
            processingIn_def del: appReducer.simps)
  next
    case (Inr result)
    have "u_status (asUpdate (finishedItem item result)) \<noteq> Some Processing"
      by (simp add: asUpdate_def finishedItem_def)
    from applyUpdate_count[OF this, of "batchQueue (app sch)"] show ?thesis
      using assms(1) Settled Inr
      by (simp add: onSettled_def reducer_update applyUpdate_ids processingCount_def
            processingIn_def del: appReducer.simps(19))
  qed
next
  case Clear
  then show ?thesis by (simp add: processingCount_def)
next
  case (ApplyPreset ts)
  then show ?thesis using assms(1) presetAll_keeps[of ts "batchQueue (app sch)"]
    by (simp add: processingCount_def processingIn_def reducer_preset del: appReducer.simps)
qed

lemma dispatchEvent_inv:
  assumes "schedInv sch" and "freshAt sch ev" and "ev \<noteq> RunEffect"
  shows "\<exists>sch'. dispatchEvent sch ev = Inr sch' \<and> schedInv sch'"
proof -
  from assms(1) have d: "distinct (map b_id (batchQueue (app sch)))" by (simp add: schedInv_def)
  from dispatch_no_more_processing[OF d assms(2,3)] obtain state'
    where s: "dispatchAll (app sch) (eventActions sch ev) = Inr state'"
      "distinct (map b_id (batchQueue state'))"
      "processingCount state' \<le> processingCount (app sch)"
    by auto
  have "schedInv (sch\<lparr> app := state' \<rparr>)"
    using assms(1) s(2,3) unfolding schedInv_def by auto
  with s(1) show ?thesis by (simp add: dispatchEvent_def)
qed

text \<open>
  The run of the effect. It admits from the queue of its render; whatever became of these
  items since, at most one item of the queue has each admitted id.
\<close>

lemma runEffect_inv:
  assumes "schedInv sch"
  shows "\<exists>sch'. runEffect sch = Inr sch' \<and> schedInv sch' \<and> \<not> effectPending sch'"
proof (cases "effectPending sch")
  case False
  then show ?thesis using assms by (simp add: runEffect_def dispatchEvent_def schedInv_def)
next
  case True
  let ?q = "batchQueue (app sch)"
  let ?A = "set (map b_id (itemsToProcess (rendered sch)))"
  from assms True
  have p: "processingIn ?q + length (itemsToProcess (rendered sch)) \<le> BATCH_CONCURRENCY"
    and d: "distinct (map b_id ?q)"
    by (simp_all add: schedInv_def processingCount_def processingIn_def)
  have "processingIn (admitAll ?A ?q)
          \<le> processingIn ?q + length (filter (\<lambda>item. b_id item \<in> ?A) ?q)"
    by (rule admitAll_count)
  also have "length (filter (\<lambda>item. b_id item \<in> ?A) ?q) \<le> card ?A"
    using d by (intro members_le_card) simp_all
  also have "card ?A \<le> length (itemsToProcess (rendered sch))"
    by (metis card_length length_map)
  finally have c: "processingIn (admitAll ?A ?q) \<le> BATCH_CONCURRENCY"
    using p by linarith
  have r: "runEffect sch
      = Inr (sch\<lparr> app := (app sch)\<lparr> batchQueue := admitAll ?A ?q \<rparr>, effectPending := False \<rparr>)"
    using True by (simp add: runEffect_def dispatchEvent_def admitActions_def admit_dispatch)
  show ?thesis unfolding r using c d
    by (simp add: schedInv_def admitAll_ids processingCount_def processingIn_def)
qed

lemma render_inv:
  assumes "schedInv sch"
  shows "\<exists>sch'. render sch = Inr sch' \<and> schedInv sch'"
proof -
  from runEffect_inv[OF assms] obtain sch1
    where s1: "runEffect sch = Inr sch1" "schedInv sch1" by auto
  let ?sch2 = "sch1\<lparr> rendered := batchQueue (app sch1), effectPending := True \<rparr>"
  from s1(2) have "processingIn (batchQueue (app sch1)) \<le> BATCH_CONCURRENCY"
    by (simp add: schedInv_def processingCount_def processingIn_def)
  from itemsToProcess_length[OF this] s1(2) have "schedInv ?sch2"
    by (simp add: schedInv_def processingCount_def processingIn_def)
  with s1(1) show ?thesis by (simp add: render_def)
qed

text \<open>Every event keeps the invariant.\<close>

lemma step_inv:
  assumes "schedInv sch" and "freshAt sch ev"
  shows "\<exists>sch'. schedulerStep sch ev = Inr sch' \<and> schedInv sch'"
proof (cases "ev = Render \<or> ev = RunEffect \<or> ev = Tick")
  case False
  then have "schedulerStep sch ev = dispatchEvent sch ev" by (cases ev) simp_all
  moreover from False have "ev \<noteq> RunEffect" by simp
  ultimately show ?thesis using dispatchEvent_inv[OF assms] by simp
next
  case True
  then consider "ev = Render" | "ev = RunEffect" | "ev = Tick" by blast
  then show ?thesis
  proof cases
    case 1
    then show ?thesis using render_inv[OF assms(1)] by simp
  next
    case 2
    then show ?thesis using runEffect_inv[OF assms(1)] by auto
  next
    case 3
    from render_inv[OF assms(1)] obtain sch1
      where s1: "render sch = Inr sch1" "schedInv sch1" by auto
    from runEffect_inv[OF s1(2)] s1(1) 3 show ?thesis by auto
  qed
qed

lemma run_inv:
  "schedInv sch \<Longrightarrow> idsFresh sch evs \<Longrightarrow> \<exists>sch'. runEvents sch evs = Inr sch' \<and> schedInv sch'"
proof (induction evs arbitrary: sch)
  case Nil
  then show ?case by simp
next
  case (Cons ev evs)
  from Cons.prems have f: "freshAt sch ev" by simp
  from step_inv[OF Cons.prems(1) f] obtain sch1
    where s1: "schedulerStep sch ev = Inr sch1" "schedInv sch1" by auto
  with Cons.prems have "idsFresh sch1 evs" by simp
  from Cons.IH[OF s1(2) this] s1 show ?case by simp
qed

lemma demoEvents_fresh: "idsFresh (mount initialState) demoEvents"
  by code_simp

text \<open>
  The effect admits from the queue of its render: in the run below the third job is
  cancelled after the render that found it pending and before that render's effect, and
  the effect then sets the cancelled job to processing.
\<close>

lemma stale_admission_overrides_cancel:
  "queueView (runScheduler initialState demoEvents)
     = Some [(''a.png-1-0.5'', Done, Some ''data:image/png;base64,ZZZZ'', None),
             (''b.png-1-0.25'', Processing, None, None),
             (''c.png-2-0.75'', Processing, None, None)]"
  by code_simp

text \<open>
  Claim C5, as stated, fails: it speaks of every sequence of events, and the reducer
  updates every item that has the id of the payload. When the id template gives three
  enqueued files the same id, one run of the effect leaves three processing items.
\<close>

theorem repeated_id_exceeds_cap:
  "processingView (runScheduler initialState repeatedIdEvents) = Some 3
   \<and> BATCH_CONCURRENCY = 2"
proof
  show "processingView (runScheduler initialState repeatedIdEvents) = Some 3"
    by code_simp
  show "BATCH_CONCURRENCY = 2" by (simp add: BATCH_CONCURRENCY_def)
qed

text \<open>
  Claim C5, amended. For every sequence of events from the initial state (enqueue, cancel,
  render, run of the effect of the last render, settling of a call with any outcome for
  any captured item, clear, preset) in which no enqueue adds an id twice or an id that is
  in the queue, no dispatch throws and the state reached has at most
  \<open>BATCH_CONCURRENCY = 2\<close> items whose status is processing, also when the effect admits
  from a queue that has changed since its render. Every prefix of such a sequence is
  such a sequence, so this is every reachable state.
\<close>

theorem processing_never_exceeds_cap:
  assumes "idsFresh (mount initialState) evs"
  shows "\<exists>s'. runScheduler initialState evs = Inr s'
           \<and> processingCount s' \<le> BATCH_CONCURRENCY \<and> BATCH_CONCURRENCY = 2"
proof -
  have "schedInv (mount initialState)"
    by (simp add: schedInv_def mount_def initialState_def processingCount_def
          itemsToProcess_def)
  from run_inv[OF this assms] show ?thesis
    by (auto simp: schedInv_def runScheduler_def BATCH_CONCURRENCY_def)
qed

theorem processing_never_exceeds_cap_witness:
  "idsFresh (mount initialState) demoEvents
   \<and> (\<exists>s'. runScheduler initialState demoEvents = Inr s'
         \<and> processingCount s' \<le> BATCH_CONCURRENCY \<and> BATCH_CONCURRENCY = 2)"
  by (rule conjI[OF demoEvents_fresh processing_never_exceeds_cap[OF demoEvents_fresh]])

text \<open>
  Claim C1 is what the program's cancel button for a processing item needs, and the
  reducer does not do it. One file is enqueued, the effect admits it, the user cancels
  it: the item is cancelled, with no result and no error. Then the outstanding call
  settles. On success the item becomes done and holds the result; on failure it becomes
  error and holds the message.
\<close>

theorem late_completion_overwrites_cancelled:
  "queueView (runScheduler initialState
      [Enqueue [(demoFile, 1, ''0.5'')], Tick, Cancel ''a.png-1-0.5''])
     = Some [(''a.png-1-0.5'', Cancelled, None, None)]
   \<and> queueView (runScheduler initialState
      [Enqueue [(demoFile, 1, ''0.5'')], Tick, Cancel ''a.png-1-0.5'',
       Settled demoItem (Inr demoResult)])
     = Some [(''a.png-1-0.5'', Done, Some ''data:image/png;base64,ZZZZ'', None)]
   \<and> queueView (runScheduler initialState
      [Enqueue [(demoFile, 1, ''0.5'')], Tick, Cancel ''a.png-1-0.5'',
       Settled demoItem (Inl (ErrorObj ''quota exceeded''))])
     = Some [(''a.png-1-0.5'', Error, None, Some ''quota exceeded'')]"
  by code_simp

lemma enhance_no_client: "enhanceImage None img ts model = Inl (ErrorObj missingApiKeyMessage)"
  by (simp add: enhanceImage_def)

lemma showNat_one: "showNat (Suc 0) = ''1''"
  by code_simp

lemma processFiles_demo:
  "processFiles (currentImage initialState) [demoBrowserFile] 7 demoStamp
     = [SET_IMAGE (Some demoFile), ADD_TO_BATCH [(demoFile, 1, ''0.5'')],
        SHOW_TOAST 7 ''1 image(s) added to queue.'' Success]"
  by (simp add: processFiles_def initialState_def demoBrowserFile_def demoStamp_def
        MAX_IMAGE_UPLOAD_SIZE_BYTES_def readFile_def demoFile_def nthOpt_def showNat_one)

lemma demo_upload_toast:
  "toastView (dispatchAll initialState
      [SET_IMAGE (Some demoFile), ADD_TO_BATCH [(demoFile, 1, ''0.5'')],
       SHOW_TOAST 7 ''1 image(s) added to queue.'' Success])
     = Some (''1 image(s) added to queue.'', Success)"
  by code_simp

lemma demo_upload_queue:
  "queueView (dispatchAll initialState
      [SET_IMAGE (Some demoFile), ADD_TO_BATCH [(demoFile, 1, ''0.5'')],
       SHOW_TOAST 7 ''1 image(s) added to queue.'' Success])
     = Some [(''a.png-1-0.5'', Pending, None, None)]"
  by code_simp

lemma demo_admitted:
  "queueView (runScheduler initialState [Enqueue [(demoFile, 1, ''0.5'')], Tick])
     = Some [(''a.png-1-0.5'', Processing, None, None)]"
  by code_simp

lemma demo_failed:
  "queueView (runScheduler initialState
      [Enqueue [(demoFile, 1, ''0.5'')], Tick,
       Settled demoItem (Inl (ErrorObj missingApiKeyMessage))])
     = Some [(''a.png-1-0.5'', Error, None, Some missingApiKeyMessage)]"
  by code_simp

text \<open>
  Claim C4, as stated, fails. With no client, \<^verbatim>\<open>processFiles\<close> on one valid file shows the
  success toast and queues the job as pending; the effect admits it; its call fails with
  the missing-key message and the job is driven to error with that message.
\<close>

theorem no_client_job_queued_admitted_failed:
  "toastView (dispatchAll initialState
      (processFiles (currentImage initialState) [demoBrowserFile] 7 demoStamp))
     = Some (''1 image(s) added to queue.'', Success)
   \<and> queueView (dispatchAll initialState
      (processFiles (currentImage initialState) [demoBrowserFile] 7 demoStamp))
     = Some [(''a.png-1-0.5'', Pending, None, None)]
   \<and> queueView (runScheduler initialState [Enqueue [(demoFile, 1, ''0.5'')], Tick])
     = Some [(''a.png-1-0.5'', Processing, None, None)]
   \<and> queueView (runScheduler initialState
      [Enqueue [(demoFile, 1, ''0.5'')], Tick,
       Settled demoItem
         (enhanceImage None (b_file demoItem) (orElse (b_preset demoItem) initialToolStates)
            Gemini_2_5_flash_image_preview)])
     = Some [(''a.png-1-0.5'', Error, None, Some missingApiKeyMessage)]"
  unfolding processFiles_demo enhance_no_client
  by (intro conjI demo_upload_toast demo_upload_queue demo_admitted demo_failed)

text \<open>
  Claim C4, amended. With no client configured, enqueueing is not rejected: whatever the
  client, \<^verbatim>\<open>ADD_TO_BATCH\<close> appends one pending job for every file. An enhancement call made
  with no client fails with the missing-API-key message, and when it settles for a job,
  the items with that job's id get the status error and that message; nothing else in the
  state changes.
\<close>

theorem no_client_per_job_error:
  "enhanceImage None img ts model = Inl (ErrorObj missingApiKeyMessage)
   \<and> appReducer s (ADD_TO_BATCH files)
       = Inr (s\<lparr> batchQueue := batchQueue s @ map (newBatchItem (tools s)) files \<rparr>)
   \<and> map b_status (map (newBatchItem (tools s)) files) = replicate (length files) Pending
   \<and> dispatchAll s (processItem None item ts model)
       = Inr (s\<lparr> batchQueue := map (failItem (b_id item) missingApiKeyMessage) (batchQueue s) \<rparr>)"
proof (intro conjI)
  show "enhanceImage None img ts model = Inl (ErrorObj missingApiKeyMessage)"
    by (rule enhance_no_client)
  show "appReducer s (ADD_TO_BATCH files)
       = Inr (s\<lparr> batchQueue := batchQueue s @ map (newBatchItem (tools s)) files \<rparr>)"
    by simp
  show "map b_status (map (newBatchItem (tools s)) files) = replicate (length files) Pending"
    by (induction files) (simp_all add: newItem_status)
  show "dispatchAll s (processItem None item ts model)
       = Inr (s\<lparr> batchQueue := map (failItem (b_id item) missingApiKeyMessage) (batchQueue s) \<rparr>)"
    by (simp add: processItem_def enhance_no_client onSettled_def thrownMessage_def
          reducer_update applyUpdate_error del: appReducer.simps)
qed

end
